theory Spec2Isabelle
  imports Complex_Main "HOL-Library.Multiset" "HOL-Library.Log_Nat"
begin

section \<open>ZIP code CSV reader and per-state extremes\<close>

text \<open>
  A shallow embedding of \<^verbatim>\<open>ZipCodeBuffer.cpp\<close> (the CSV reader) and of the second,
  tie-breaking version of \<^verbatim>\<open>main.cpp\<close> (the aggregation and the program's exit codes).
  A \<^verbatim>\<open>std::string\<close> is a \<open>string\<close> (a list of bytes), a \<^verbatim>\<open>vector\<close> is a list.
\<close>

subsection \<open>Field splitting and trimming\<close>

text \<open>
  \<^verbatim>\<open>ZipCodeBuffer::splitCSV\<close>: the loop over the characters of the line, with its three
  local variables \<^verbatim>\<open>fields\<close>, \<^verbatim>\<open>currentField\<close> and \<^verbatim>\<open>inQuotes\<close>; the last field is
  pushed after the loop.
\<close>

fun splitCSV_loop :: "string \<Rightarrow> string list \<Rightarrow> string \<Rightarrow> bool \<Rightarrow> string list" where
  "splitCSV_loop [] fields currentField inQuotes = fields @ [currentField]"
| "splitCSV_loop (c # cs) fields currentField inQuotes =
     (if c = CHR ''\"'' then splitCSV_loop cs fields currentField (\<not> inQuotes)
      else if c = CHR '','' \<and> \<not> inQuotes then splitCSV_loop cs (fields @ [currentField]) [] inQuotes
      else splitCSV_loop cs fields (currentField @ [c]) inQuotes)"

definition splitCSV :: "string \<Rightarrow> string list" where
  "splitCSV line = splitCSV_loop line [] [] False"

text \<open>
  \<^verbatim>\<open>std::string::find_first_not_of\<close>, \<^verbatim>\<open>find_last_not_of\<close> and \<^verbatim>\<open>substr\<close>;
  \<open>None\<close> is \<^verbatim>\<open>npos\<close>.
\<close>

definition find_first_not_of :: "string \<Rightarrow> string \<Rightarrow> nat option" where
  "find_first_not_of str chars = List.find (\<lambda>i. str ! i \<notin> set chars) [0..<length str]"

definition find_last_not_of :: "string \<Rightarrow> string \<Rightarrow> nat option" where
  "find_last_not_of str chars = List.find (\<lambda>i. str ! i \<notin> set chars) (rev [0..<length str])"

definition substr :: "string \<Rightarrow> nat \<Rightarrow> nat \<Rightarrow> string" where
  "substr str pos n = take n (drop pos str)"

definition whitespace :: string where
  "whitespace = [CHR '' '', CHR 0x09, CHR 0x0D, CHR 0x0A]"

text \<open>
  \<^verbatim>\<open>ZipCodeBuffer::trim\<close>. When a first non-blank character exists, a last one exists too,
  so the \<open>None\<close> branch of the inner case is never taken; it returns what \<^verbatim>\<open>npos\<close>
  (the largest \<^verbatim>\<open>size_t\<close>) gives there, the string from \<open>start\<close> on.
\<close>

definition trim :: "string \<Rightarrow> string" where
  "trim str =
     (case find_first_not_of str whitespace of
        None \<Rightarrow> []
      | Some start \<Rightarrow>
          (case find_last_not_of str whitespace of
             None \<Rightarrow> drop start str
           | Some end \<Rightarrow> substr str start (end - start + 1)))"

text \<open>
  The positions of a line at which the quote flag is on, and the commas that separate
  fields, stated on the line itself: a position is inside quotes when an odd number of
  quote characters precede it.
\<close>

definition inQuotes_at :: "string \<Rightarrow> nat \<Rightarrow> bool" where
  "inQuotes_at line i = odd (count_list (take i line) (CHR ''\"''))"

definition separators :: "string \<Rightarrow> nat list" where
  "separators line =
     filter (\<lambda>i. line ! i = CHR '','' \<and> \<not> inQuotes_at line i) [0..<length line]"

text \<open>
  The pieces into which the separators at the positions \<open>ss\<close> cut a line from the
  position \<open>a\<close> on, each without its quote characters.
\<close>

fun pieces :: "nat \<Rightarrow> nat list \<Rightarrow> string \<Rightarrow> string list" where
  "pieces a [] line = [filter (\<lambda>c. c \<noteq> CHR ''\"'') (drop a line)]"
| "pieces a (s # ss) line =
     filter (\<lambda>c. c \<noteq> CHR ''\"'') (take (s - a) (drop a line)) # pieces (Suc s) ss line"

subsection \<open>Numbers: \<^verbatim>\<open>int\<close>, \<^verbatim>\<open>double\<close> and the library conversions\<close>

text \<open>
  A \<^verbatim>\<open>double\<close> is modelled by what the comparisons of the program can observe: a
  not-a-number, the two infinities, or a finite value, kept as the rational it denotes
  (\<open>-0.0\<close> and \<open>0.0\<close> are one value, as \<^verbatim>\<open>==\<close> has it). The three comparisons used by
  the program follow IEEE 754: every comparison with a not-a-number is false.
\<close>

datatype double = NaN | NegInf | Finite rat | PosInf

fun double_less :: "double \<Rightarrow> double \<Rightarrow> bool" where
  "double_less NaN y = False"
| "double_less x NaN = False"
| "double_less PosInf y = False"
| "double_less x NegInf = False"
| "double_less NegInf y = True"
| "double_less x PosInf = True"
| "double_less (Finite a) (Finite b) = (a < b)"

definition double_greater :: "double \<Rightarrow> double \<Rightarrow> bool" where
  "double_greater x y = double_less y x"

definition double_eq :: "double \<Rightarrow> double \<Rightarrow> bool" where
  "double_eq x y = (x \<noteq> NaN \<and> x = y)"

text \<open>\<^verbatim>\<open>numeric_limits<double>::max()\<close> and \<^verbatim>\<open>lowest()\<close>: finite values, not infinities.\<close>

definition DBL_MAX :: rat where
  "DBL_MAX = (2 ^ 53 - 1) * 2 ^ 971"

definition numeric_limits_max :: double where
  "numeric_limits_max = Finite DBL_MAX"

definition numeric_limits_lowest :: double where
  "numeric_limits_lowest = Finite (- DBL_MAX)"

text \<open>
  The exceptions \<^verbatim>\<open>std::stoi\<close> and \<^verbatim>\<open>std::stod\<close> throw, as values. Both conversions
  skip leading white space (\<^verbatim>\<open>isspace\<close> in the C locale), read an optional sign and the
  longest numeric prefix, and ignore what follows it; no numeric prefix is
  \<open>invalid_argument\<close>, a value out of the range of the result type is \<open>out_of_range\<close>.
\<close>

datatype exception = invalid_argument | out_of_range

definition isspace :: "char \<Rightarrow> bool" where
  "isspace c = (c \<in> set [CHR '' '', CHR 0x09, CHR 0x0A, CHR 0x0B, CHR 0x0C, CHR 0x0D])"

definition isdigit :: "char \<Rightarrow> bool" where
  "isdigit c = (c \<in> set ''0123456789'')"

definition isxdigit :: "char \<Rightarrow> bool" where
  "isxdigit c = (c \<in> set ''0123456789abcdefABCDEF'')"

definition tolower :: "char \<Rightarrow> char" where
  "tolower c = (if c \<in> set ''ABCDEFGHIJKLMNOPQRSTUVWXYZ'' then char_of (of_char c + (32::nat)) else c)"

definition digit_value :: "char \<Rightarrow> nat" where
  "digit_value c =
     (if isdigit c then of_char c - 48
      else if c \<in> set ''abcdef'' then of_char c - 87
      else of_char c - 55)"

definition digits_value :: "nat \<Rightarrow> string \<Rightarrow> nat" where
  "digits_value base ds = foldl (\<lambda>v c. base * v + digit_value c) 0 ds"

definition read_sign :: "string \<Rightarrow> bool \<times> string" where
  "read_sign s =
     (case s of
        [] \<Rightarrow> (False, s)
      | c # r \<Rightarrow> if c = CHR ''-'' then (True, r) else if c = CHR ''+'' then (False, r) else (False, s))"

definition stoi :: "string \<Rightarrow> exception + int" where
  "stoi str =
     (let (neg, s) = read_sign (dropWhile isspace str);
          ds = takeWhile isdigit s
      in if ds = [] then Inl invalid_argument
         else let v = (if neg then - int (digits_value 10 ds) else int (digits_value 10 ds))
              in if v < - (2 ^ 31) \<or> 2 ^ 31 - 1 < v then Inl out_of_range else Inr v)"

text \<open>
  The exponent part of a floating literal, after its marker (\<open>e\<close> or \<open>p\<close>): an optional
  sign and at least one decimal digit; without a digit the exponent is not part of the
  number and counts as \<open>0\<close>.
\<close>

definition read_exponent :: "string \<Rightarrow> string \<Rightarrow> int" where
  "read_exponent markers s =
     (case s of
        [] \<Rightarrow> 0
      | c # r \<Rightarrow>
          if c \<in> set markers then
            (let (neg, r') = read_sign r; ds = takeWhile isdigit r'
             in if neg then - int (digits_value 10 ds) else int (digits_value 10 ds))
          else 0)"

definition scale :: "rat \<Rightarrow> int \<Rightarrow> rat" where
  "scale b e = (if 0 \<le> e then b ^ nat e else 1 / b ^ nat (- e))"

text \<open>
  The magnitude of a literal in the given base, as a fraction of two natural numbers:
  integer digits, an optional point with fraction digits, an optional exponent; \<open>None\<close>
  when it has no digit at all.
\<close>

definition read_literal :: "nat \<Rightarrow> (char \<Rightarrow> bool) \<Rightarrow> string \<Rightarrow> nat \<Rightarrow> string \<Rightarrow> (nat \<times> nat) option" where
  "read_literal base is_digit markers ebase s =
     (let ip = takeWhile is_digit s;
          s1 = dropWhile is_digit s;
          fp = (case s1 of [] \<Rightarrow> [] | c # r \<Rightarrow> if c = CHR ''.'' then takeWhile is_digit r else []);
          s2 = (case s1 of [] \<Rightarrow> [] | c # r \<Rightarrow> if c = CHR ''.'' then dropWhile is_digit r else s1);
          m = digits_value base (ip @ fp);
          e = read_exponent markers s2
      in if ip = [] \<and> fp = [] then None
         else if 0 \<le> e then Some (m * ebase ^ nat e, base ^ length fp)
         else Some (m, base ^ length fp * ebase ^ nat (- e)))"

text \<open>
  The conversion of a positive fraction \<open>p / q\<close> to binary64, as \<^verbatim>\<open>strtod\<close> of the GNU C
  library does it in the default rounding mode. \<open>floor_log2\<close> is the exponent \<open>e\<close> with
  \<open>2 ^ e \<le> p / q < 2 ^ (e + 1)\<close>; the significand has 53 bits, so the value is rounded
  to a multiple of \<open>2 ^ (e - 52)\<close>, of \<open>2 ^ (- 1074)\<close> for a subnormal result, to the
  nearest one and to the even one on a tie. A result beyond the largest finite value is
  a range error; so is a result that is inexact and tiny, where tiny means that the value
  rounded with an unbounded exponent is still below \<open>2 ^ (- 1022)\<close> (tininess is detected
  after rounding, as on x86).
\<close>

definition floor_log2 :: "nat \<Rightarrow> nat \<Rightarrow> int" where
  "floor_log2 p q =
     (let k = int (floorlog 2 p) - int (floorlog 2 q)
      in if (if 0 \<le> k then p < q * 2 ^ nat k else p * 2 ^ nat (- k) < q) then k - 1 else k)"

definition round_half_even :: "nat \<Rightarrow> nat \<Rightarrow> nat" where
  "round_half_even n d =
     (if d < 2 * (n mod d) \<or> (2 * (n mod d) = d \<and> odd (n div d)) then n div d + 1 else n div d)"

definition round_at :: "nat \<Rightarrow> nat \<Rightarrow> int \<Rightarrow> nat" where
  "round_at p q t =
     (if t < 0 then round_half_even (p * 2 ^ nat (- t)) q else round_half_even p (q * 2 ^ nat t))"

definition exact_at :: "nat \<Rightarrow> nat \<Rightarrow> int \<Rightarrow> bool" where
  "exact_at p q t = (if t < 0 then (p * 2 ^ nat (- t)) mod q = 0 else p mod (q * 2 ^ nat t) = 0)"

definition round_to_double :: "nat \<Rightarrow> nat \<Rightarrow> exception + rat" where
  "round_to_double p q =
     (if p = 0 then Inr 0
      else
        (let e = floor_log2 p q;
             t = max e (- 1022) - 52;
             n = round_at p q t
         in if 1023 < e \<or> (e = 1023 \<and> n = 2 ^ 53) then Inl out_of_range
            else if e < - 1022 \<and> \<not> (e = - 1023 \<and> round_at p q (e - 52) = 2 ^ 53)
                    \<and> \<not> exact_at p q t
            then Inl out_of_range
            else Inr (of_nat n * scale 2 t)))"

text \<open>
  \<^verbatim>\<open>std::stod\<close>, through \<^verbatim>\<open>strtod\<close>: an infinity, a not-a-number, a hexadecimal or a
  decimal literal, rounded to binary64; \<^verbatim>\<open>std::stod\<close> throws \<open>out_of_range\<close> when
  \<^verbatim>\<open>strtod\<close> reports a range error.
\<close>

definition stod :: "string \<Rightarrow> exception + double" where
  "stod str =
     (let (neg, s) = read_sign (dropWhile isspace str) in
      if map tolower (take 3 s) = ''inf'' then Inr (if neg then NegInf else PosInf)
      else if map tolower (take 3 s) = ''nan'' then Inr NaN
      else
        (case (if map tolower (take 2 s) = ''0x''
               then (case read_literal 16 isxdigit ''pP'' 2 (drop 2 s) of
                       None \<Rightarrow> Some (0, 1)
                     | Some v \<Rightarrow> Some v)
               else read_literal 10 isdigit ''eE'' 10 s) of
           None \<Rightarrow> Inl invalid_argument
         | Some (p, q) \<Rightarrow>
             (case round_to_double p q of
                Inl e \<Rightarrow> Inl e
              | Inr v \<Rightarrow> Inr (Finite (if neg then - v else v)))))"



subsection \<open>Records and line parsing\<close>

record ZipCodeRecord =
  zipCode :: int
  placeName :: string
  state :: string
  county :: string
  latitude :: double
  longitude :: double

text \<open>The default constructor \<^verbatim>\<open>ZipCodeRecord::ZipCodeRecord()\<close>.\<close>

definition ZipCodeRecord_default :: ZipCodeRecord where
  "ZipCodeRecord_default =
     \<lparr>zipCode = 0, placeName = [], state = [], county = [], latitude = Finite 0,
      longitude = Finite 0\<rparr>"

text \<open>
  \<^verbatim>\<open>ZipCodeBuffer::parseLine\<close>. The record is an out-parameter assigned field by field
  inside the \<^verbatim>\<open>try\<close> block, so a conversion that throws leaves the fields assigned
  before it changed; the function returns its result and the record as it then is.
\<close>

definition parseLine :: "string \<Rightarrow> ZipCodeRecord \<Rightarrow> bool \<times> ZipCodeRecord" where
  "parseLine line record =
     (let fields = splitCSV line in
      if length fields \<noteq> 6 then (False, record)
      else
        (case stoi (trim (fields ! 0)) of
           Inl e \<Rightarrow> (False, record)
         | Inr z \<Rightarrow>
             (let r1 = record\<lparr>zipCode := z, placeName := trim (fields ! 1),
                              state := trim (fields ! 2), county := trim (fields ! 3)\<rparr>
              in case stod (trim (fields ! 4)) of
                   Inl e \<Rightarrow> (False, r1)
                 | Inr lat \<Rightarrow>
                     (let r2 = r1\<lparr>latitude := lat\<rparr>
                      in case stod (trim (fields ! 5)) of
                           Inl e \<Rightarrow> (False, r2)
                         | Inr lon \<Rightarrow> (True, r2\<lparr>longitude := lon\<rparr>)))))"

subsection \<open>The input stream\<close>

text \<open>
  The part of \<^verbatim>\<open>std::ifstream\<close> the reader uses. A stream is attached to the bytes of
  the file it was opened on (\<open>content\<close>) and holds the bytes not yet read (\<open>unread\<close>)
  and the two state flags the reader can set. A file system maps a path to the bytes of
  the file there, if there is one.
\<close>

record ifstream =
  is_open :: bool
  content :: string
  unread :: string
  eofbit :: bool
  failbit :: bool

type_synonym filesystem = "string \<rightharpoonup> string"

definition ifstream_init :: ifstream where
  "ifstream_init = \<lparr>is_open = False, content = [], unread = [], eofbit = False, failbit = False\<rparr>"

definition good :: "ifstream \<Rightarrow> bool" where
  "good s = (\<not> eofbit s \<and> \<not> failbit s)"

text \<open>
  \<^verbatim>\<open>ifstream::open\<close>: fails (sets \<^verbatim>\<open>failbit\<close>) when the stream is already open or the
  file does not exist; on success the state flags are cleared.
\<close>

definition ifstream_open :: "filesystem \<Rightarrow> string \<Rightarrow> ifstream \<Rightarrow> ifstream" where
  "ifstream_open fsys path s =
     (if is_open s then s\<lparr>failbit := True\<rparr>
      else case fsys path of
             None \<Rightarrow> s\<lparr>failbit := True\<rparr>
           | Some bytes \<Rightarrow>
               s\<lparr>is_open := True, content := bytes, unread := bytes, eofbit := False,
                 failbit := False\<rparr>)"

definition ifstream_close :: "ifstream \<Rightarrow> ifstream" where
  "ifstream_close s = (if is_open s then s\<lparr>is_open := False\<rparr> else s\<lparr>failbit := True\<rparr>)"

definition clear :: "ifstream \<Rightarrow> ifstream" where
  "clear s = s\<lparr>eofbit := False, failbit := False\<rparr>"

text \<open>
  \<^verbatim>\<open>seekg(0, ios::beg)\<close>: clears \<^verbatim>\<open>eofbit\<close>, then moves to the start unless the stream
  has failed or is not open (a seek on a closed file buffer fails).
\<close>

definition seekg_beg :: "ifstream \<Rightarrow> ifstream" where
  "seekg_beg s =
     (let s1 = s\<lparr>eofbit := False\<rparr> in
      if failbit s1 then s1
      else if is_open s1 then s1\<lparr>unread := content s1\<rparr>
      else s1\<lparr>failbit := True\<rparr>)"

text \<open>
  \<^verbatim>\<open>std::getline(stream, line)\<close> into a fresh string, as every call of the reader is:
  the result is the success of the call, the line and the stream. On a stream that is
  not good nothing is read and \<^verbatim>\<open>failbit\<close> is set. Otherwise the characters up to the
  next newline are the line and the newline is dropped; running into the end of the
  input sets \<^verbatim>\<open>eofbit\<close>, and also \<^verbatim>\<open>failbit\<close> when nothing at all was extracted
  (a stream that is not open has nothing to extract).
\<close>

definition getline :: "ifstream \<Rightarrow> bool \<times> string \<times> ifstream" where
  "getline s =
     (if \<not> good s then (False, [], s\<lparr>failbit := True\<rparr>)
      else if \<not> is_open s \<or> unread s = [] then (False, [], s\<lparr>eofbit := True, failbit := True\<rparr>)
      else
        (let line = takeWhile (\<lambda>c. c \<noteq> CHR 0x0A) (unread s);
             rest = dropWhile (\<lambda>c. c \<noteq> CHR 0x0A) (unread s)
         in if rest = [] then (True, line, s\<lparr>unread := [], eofbit := True\<rparr>)
            else (True, line, s\<lparr>unread := tl rest\<rparr>)))"

subsection \<open>The buffer\<close>

record ZipCodeBuffer =
  fileStream :: ifstream
  filename :: string
  headerSkipped :: bool
  recordCount :: int

text \<open>The default constructor \<^verbatim>\<open>ZipCodeBuffer::ZipCodeBuffer()\<close>.\<close>

definition ZipCodeBuffer_init :: ZipCodeBuffer where
  "ZipCodeBuffer_init =
     \<lparr>fileStream = ifstream_init, filename = [], headerSkipped = False, recordCount = 0\<rparr>"

text \<open>\<^verbatim>\<open>ZipCodeBuffer::close\<close>.\<close>

definition close :: "ZipCodeBuffer \<Rightarrow> ZipCodeBuffer" where
  "close b =
     (let b1 = (if is_open (fileStream b) then b\<lparr>fileStream := ifstream_close (fileStream b)\<rparr>
                else b)
      in b1\<lparr>filename := [], headerSkipped := False, recordCount := 0\<rparr>)"

text \<open>
  \<^verbatim>\<open>ZipCodeBuffer::open\<close>, on a given file system: the result is the returned flag and
  the buffer.
\<close>

definition open_file :: "filesystem \<Rightarrow> string \<Rightarrow> ZipCodeBuffer \<Rightarrow> bool \<times> ZipCodeBuffer" where
  "open_file fsys csvFilename b =
     (let b1 = close b;
          b2 = b1\<lparr>filename := csvFilename\<rparr>;
          b3 = b2\<lparr>fileStream := ifstream_open fsys (filename b2) (fileStream b2)\<rparr>
      in if \<not> is_open (fileStream b3) then (False, b3)
         else
           (case getline (fileStream b3) of
              (ok, headerLine, s) \<Rightarrow>
                if ok then (True, b3\<lparr>fileStream := s, headerSkipped := True, recordCount := 0\<rparr>)
                else (False, close (b3\<lparr>fileStream := s\<rparr>))))"

definition isOpen :: "ZipCodeBuffer \<Rightarrow> bool" where
  "isOpen b = is_open (fileStream b)"

definition getRecordCount :: "ZipCodeBuffer \<Rightarrow> int" where
  "getRecordCount b = recordCount b"

definition getFilename :: "ZipCodeBuffer \<Rightarrow> string" where
  "getFilename b = filename b"

text \<open>\<^verbatim>\<open>ZipCodeBuffer::reset\<close>: the returned flag and the buffer.\<close>

definition reset :: "ZipCodeBuffer \<Rightarrow> bool \<times> ZipCodeBuffer" where
  "reset b =
     (if \<not> is_open (fileStream b) then (False, b)
      else
        (case getline (seekg_beg (clear (fileStream b))) of
           (ok, headerLine, s) \<Rightarrow>
             if \<not> ok then (False, b\<lparr>fileStream := s\<rparr>)
             else (True, b\<lparr>fileStream := s, recordCount := 0\<rparr>)))"

text \<open>
  \<^verbatim>\<open>ZipCodeBuffer::readRecord\<close>: the returned flag, the out-parameter \<^verbatim>\<open>record\<close> and the
  buffer. The function calls itself on a blank line; every successful \<^verbatim>\<open>getline\<close>
  consumes at least one byte, which bounds the recursion.
\<close>

function readRecord :: "ZipCodeRecord \<Rightarrow> ZipCodeBuffer \<Rightarrow> bool \<times> ZipCodeRecord \<times> ZipCodeBuffer" where
  "readRecord record b =
     (if \<not> is_open (fileStream b) then (False, record, b)
      else
        (case getline (fileStream b) of
           (ok, line, s) \<Rightarrow>
             if ok then
               (if line = [] \<or> trim line = [] then readRecord record (b\<lparr>fileStream := s\<rparr>)
                else
                  (case parseLine line record of
                     (parsed, record') \<Rightarrow>
                       if parsed
                       then (True, record', b\<lparr>fileStream := s, recordCount := recordCount b + 1\<rparr>)
                       else (False, record', b\<lparr>fileStream := s\<rparr>)))
             else (False, record, b\<lparr>fileStream := s\<rparr>)))"
  by pat_completeness auto
termination
proof (relation "measure (\<lambda>(r, b). length (unread (fileStream b)))")
  show "wf (measure (\<lambda>(r, b). length (unread (fileStream b))))"
    by simp
next
  fix r :: ZipCodeRecord and b :: ZipCodeBuffer and ok :: bool
    and y :: "string \<times> ifstream" and line :: string and s :: ifstream
  assume "(ok, y) = getline (fileStream b)" "(line, s) = y" "ok"
  then have g: "getline (fileStream b) = (True, line, s)"
    by (cases "getline (fileStream b)") simp
  then have "s = snd (snd (getline (fileStream b)))" and "fst (getline (fileStream b))"
    by simp_all
  then have "length (unread s) < length (unread (fileStream b))"
    using length_dropWhile_le [of "\<lambda>c. c \<noteq> CHR 0x0A" "unread (fileStream b)"]
    by (cases "dropWhile (\<lambda>c. c \<noteq> CHR 0x0A) (unread (fileStream b))")
      (simp_all add: getline_def Let_def split: if_splits)
  then show "((r, b\<lparr>fileStream := s\<rparr>), (r, b)) \<in> measure (\<lambda>(r, b). length (unread (fileStream b)))"
    by simp
qed

declare readRecord.simps [simp del]

text \<open>
  The loop of \<^verbatim>\<open>ZipCodeBuffer::gatherAllRecords\<close>,
  \<^verbatim>\<open>while (readRecord(record)) records.push_back(record);\<close>, on the local variables
  \<^verbatim>\<open>record\<close> and \<^verbatim>\<open>records\<close>. Every successful \<^verbatim>\<open>readRecord\<close> consumes input,
  which bounds the loop.
\<close>

function gatherAllRecords_loop ::
  "ZipCodeRecord \<Rightarrow> ZipCodeRecord list \<Rightarrow> ZipCodeBuffer \<Rightarrow> ZipCodeRecord list \<times> ZipCodeBuffer" where
  "gatherAllRecords_loop record records b =
     (case readRecord record b of
        (ok, record', b') \<Rightarrow>
          if ok then gatherAllRecords_loop record' (records @ [record']) b'
          else (records, b'))"
  by pat_completeness auto
termination
proof (relation "measure (\<lambda>(r, rs, b). length (unread (fileStream b)))")
  show "wf (measure (\<lambda>(r, rs, b). length (unread (fileStream b))))"
    by simp
next
  fix r r' :: ZipCodeRecord and rs :: "ZipCodeRecord list" and b b' :: ZipCodeBuffer
    and ok :: bool and y :: "ZipCodeRecord \<times> ZipCodeBuffer"
  assume a: "(ok, y) = readRecord r b" "(r', b') = y" "ok"
  have lt: "fst (readRecord r b) \<longrightarrow>
      length (unread (fileStream (snd (snd (readRecord r b))))) < length (unread (fileStream b))"
    for r b
  proof (induction r b rule: readRecord.induct)
    case (1 r b)
    let ?t = "fileStream b"
    obtain ok line s where g: "getline ?t = (ok, line, s)"
      by (cases "getline ?t")
    then have "s = snd (snd (getline ?t))" and "ok = fst (getline ?t)"
      by simp_all
    then have s: "ok \<longrightarrow> length (unread s) < length (unread ?t)"
      using length_dropWhile_le [of "\<lambda>c. c \<noteq> CHR 0x0A" "unread ?t"]
      by (cases "dropWhile (\<lambda>c. c \<noteq> CHR 0x0A) (unread ?t)")
        (simp_all add: getline_def Let_def split: if_splits)
    have unf: "readRecord r b =
        (if \<not> is_open ?t then (False, r, b)
         else if ok then
           (if line = [] \<or> trim line = [] then readRecord r (b\<lparr>fileStream := s\<rparr>)
            else
              (case parseLine line r of
                 (parsed, record') \<Rightarrow>
                   if parsed
                   then (True, record', b\<lparr>fileStream := s, recordCount := recordCount b + 1\<rparr>)
                   else (False, record', b\<lparr>fileStream := s\<rparr>)))
         else (False, r, b\<lparr>fileStream := s\<rparr>))"
      by (subst readRecord.simps) (simp add: g)
    show ?case
    proof (cases "is_open ?t \<and> ok \<and> (line = [] \<or> trim line = [])")
      case True
      then have "readRecord r b = readRecord r (b\<lparr>fileStream := s\<rparr>)"
        unfolding unf by simp
      moreover have "fst (readRecord r (b\<lparr>fileStream := s\<rparr>)) \<longrightarrow>
          length (unread (fileStream (snd (snd (readRecord r (b\<lparr>fileStream := s\<rparr>))))))
            < length (unread (fileStream (b\<lparr>fileStream := s\<rparr>)))"
        using True g by (intro "1.IH" [of ok "(line, s)" line s]) simp_all
      ultimately show ?thesis using s True by auto
    next
      case False
      then show ?thesis
        unfolding unf using s by (auto split: prod.splits)
    qed
  qed
  from a have "fst (readRecord r b)" and "b' = snd (snd (readRecord r b))"
    by (cases "readRecord r b"; simp)+
  with lt [of r b]
  show "((r', rs @ [r'], b'), (r, rs, b)) \<in> measure (\<lambda>(r, rs, b). length (unread (fileStream b)))"
    by simp
qed

declare gatherAllRecords_loop.simps [simp del]

text \<open>
  \<^verbatim>\<open>ZipCodeBuffer::gatherAllRecords\<close>: the returned vector and the buffer. The results
  of the two calls of \<^verbatim>\<open>reset\<close> are ignored, as in the source.
\<close>

definition gatherAllRecords :: "ZipCodeBuffer \<Rightarrow> ZipCodeRecord list \<times> ZipCodeBuffer" where
  "gatherAllRecords b =
     (case reset b of
        (ok1, b1) \<Rightarrow>
          (case gatherAllRecords_loop ZipCodeRecord_default [] b1 of
             (records, b2) \<Rightarrow>
               (case reset b2 of (ok2, b3) \<Rightarrow> (records, b3))))"

subsection \<open>The aggregation\<close>

record StateExtremes =
  easternmost :: int
  westernmost :: int
  northernmost :: int
  southernmost :: int
  minLongitude :: double
  maxLongitude :: double
  maxLatitude :: double
  minLatitude :: double

text \<open>The constructor \<^verbatim>\<open>StateExtremes::StateExtremes()\<close>.\<close>

definition StateExtremes_init :: StateExtremes where
  "StateExtremes_init =
     \<lparr>easternmost = 0, westernmost = 0, northernmost = 0, southernmost = 0,
      minLongitude = numeric_limits_max, maxLongitude = numeric_limits_lowest,
      maxLatitude = numeric_limits_lowest, minLatitude = numeric_limits_max\<rparr>"

definition smallerZipWins :: "int \<Rightarrow> int \<Rightarrow> bool" where
  "smallerZipWins candidate current = (if current = 0 then True else candidate < current)"

text \<open>
  The body of the loop of \<^verbatim>\<open>calculateStateExtremes\<close> on the entry \<^verbatim>\<open>extremes\<close> of the
  record's state: the four updates, in the order of the source.
\<close>

definition update_easternmost :: "ZipCodeRecord \<Rightarrow> StateExtremes \<Rightarrow> StateExtremes" where
  "update_easternmost record extremes =
     (if double_less (longitude record) (minLongitude extremes)
      then extremes\<lparr>minLongitude := longitude record, easternmost := zipCode record\<rparr>
      else if double_eq (longitude record) (minLongitude extremes)
      then (if smallerZipWins (zipCode record) (easternmost extremes)
            then extremes\<lparr>easternmost := zipCode record\<rparr> else extremes)
      else extremes)"

definition update_westernmost :: "ZipCodeRecord \<Rightarrow> StateExtremes \<Rightarrow> StateExtremes" where
  "update_westernmost record extremes =
     (if double_greater (longitude record) (maxLongitude extremes)
      then extremes\<lparr>maxLongitude := longitude record, westernmost := zipCode record\<rparr>
      else if double_eq (longitude record) (maxLongitude extremes)
      then (if smallerZipWins (zipCode record) (westernmost extremes)
            then extremes\<lparr>westernmost := zipCode record\<rparr> else extremes)
      else extremes)"

definition update_northernmost :: "ZipCodeRecord \<Rightarrow> StateExtremes \<Rightarrow> StateExtremes" where
  "update_northernmost record extremes =
     (if double_greater (latitude record) (maxLatitude extremes)
      then extremes\<lparr>maxLatitude := latitude record, northernmost := zipCode record\<rparr>
      else if double_eq (latitude record) (maxLatitude extremes)
      then (if smallerZipWins (zipCode record) (northernmost extremes)
            then extremes\<lparr>northernmost := zipCode record\<rparr> else extremes)
      else extremes)"

definition update_southernmost :: "ZipCodeRecord \<Rightarrow> StateExtremes \<Rightarrow> StateExtremes" where
  "update_southernmost record extremes =
     (if double_less (latitude record) (minLatitude extremes)
      then extremes\<lparr>minLatitude := latitude record, southernmost := zipCode record\<rparr>
      else if double_eq (latitude record) (minLatitude extremes)
      then (if smallerZipWins (zipCode record) (southernmost extremes)
            then extremes\<lparr>southernmost := zipCode record\<rparr> else extremes)
      else extremes)"

definition update_extremes :: "ZipCodeRecord \<Rightarrow> StateExtremes \<Rightarrow> StateExtremes" where
  "update_extremes record extremes =
     update_southernmost record
       (update_northernmost record
         (update_westernmost record
           (update_easternmost record extremes)))"

text \<open>
  \<^verbatim>\<open>stateMap[state]\<close> creates the entry with the constructor when the key is new; the
  \<^verbatim>\<open>std::map\<close> is a map from the state to its entry.
\<close>

definition process_record ::
  "ZipCodeRecord \<Rightarrow> (string \<rightharpoonup> StateExtremes) \<Rightarrow> (string \<rightharpoonup> StateExtremes)" where
  "process_record record stateMap =
     (let extremes = (case stateMap (state record) of
                        None \<Rightarrow> StateExtremes_init
                      | Some e \<Rightarrow> e)
      in stateMap(state record \<mapsto> update_extremes record extremes))"

fun calculateStateExtremes_loop ::
  "ZipCodeRecord list \<Rightarrow> (string \<rightharpoonup> StateExtremes) \<Rightarrow> (string \<rightharpoonup> StateExtremes)" where
  "calculateStateExtremes_loop [] stateMap = stateMap"
| "calculateStateExtremes_loop (record # records) stateMap =
     calculateStateExtremes_loop records (process_record record stateMap)"

definition calculateStateExtremes :: "ZipCodeRecord list \<Rightarrow> (string \<rightharpoonup> StateExtremes)" where
  "calculateStateExtremes records = calculateStateExtremes_loop records Map.empty"

subsection \<open>The program\<close>

text \<open>
  \<^verbatim>\<open>main\<close>, on a file system and the argument vector (\<^verbatim>\<open>argc\<close> is its length): the exit
  code. What the program prints is not modelled.
\<close>

definition main :: "filesystem \<Rightarrow> string list \<Rightarrow> int" where
  "main fsys argv =
     (if length argv \<noteq> 2 then 1
      else
        (let filename = argv ! 1 in
         case open_file fsys filename ZipCodeBuffer_init of
           (opened, buffer) \<Rightarrow>
             if \<not> opened then 2
             else
               (case gatherAllRecords buffer of
                  (allRecords, buffer') \<Rightarrow>
                    if allRecords = [] then 3 else 0)))"

subsection \<open>The lines of a file\<close>

text \<open>
  The lines that successive calls of \<^verbatim>\<open>getline\<close> extract from a text: a newline ends a
  line, and a last line needs none. The test of \<^verbatim>\<open>readRecord\<close> for a line to skip is
  \<open>is_blank\<close>; \<open>parse\<close> is \<open>parseLine\<close> on a fresh record, with the Boolean result as
  an option; \<open>collect\<close> is what the loop of \<^verbatim>\<open>gatherAllRecords\<close> gathers from a list
  of lines: it skips blank lines and stops at the first line that does not parse.
\<close>

fun lines_of :: "string \<Rightarrow> string list" where
  "lines_of [] = []"
| "lines_of (c # cs) =
     (if c = CHR 0x0A then [] # lines_of cs
      else case lines_of cs of [] \<Rightarrow> [[c]] | l # ls \<Rightarrow> (c # l) # ls)"

definition is_blank :: "string \<Rightarrow> bool" where
  "is_blank line = (line = [] \<or> trim line = [])"

definition parse :: "string \<Rightarrow> ZipCodeRecord option" where
  "parse line =
     (case parseLine line ZipCodeRecord_default of
        (parsed, record) \<Rightarrow> if parsed then Some record else None)"

fun collect :: "string list \<Rightarrow> ZipCodeRecord list" where
  "collect [] = []"
| "collect (l # ls) =
     (if is_blank l then collect ls
      else case parse l of None \<Rightarrow> [] | Some record \<Rightarrow> record # collect ls)"

text \<open>
  The streams on which reading goes on: open, and either good or with nothing left to
  read (a stream that reached the end keeps \<^verbatim>\<open>eofbit\<close>).
\<close>

definition stream_ok :: "ifstream \<Rightarrow> bool" where
  "stream_ok s = (is_open s \<and> (good s \<or> unread s = []))"

text \<open>
  What a call \<open>readRecord r b\<close> does when \<open>ls\<close> are the lines still to be read, the
  blank ones at the front dropped; and what the loop of \<^verbatim>\<open>gatherAllRecords\<close> leaves.
\<close>

definition readRecord_post :: "ZipCodeRecord \<Rightarrow> ZipCodeBuffer \<Rightarrow> string list \<Rightarrow> bool" where
  "readRecord_post r b ls =
     (fst (readRecord r b) = (case ls of [] \<Rightarrow> False | l # rest \<Rightarrow> fst (parseLine l r))
      \<and> fst (snd (readRecord r b)) = (case ls of [] \<Rightarrow> r | l # rest \<Rightarrow> snd (parseLine l r))
      \<and> lines_of (unread (fileStream (snd (snd (readRecord r b))))) = tl ls
      \<and> stream_ok (fileStream (snd (snd (readRecord r b))))
      \<and> content (fileStream (snd (snd (readRecord r b)))) = content (fileStream b)
      \<and> filename (snd (snd (readRecord r b))) = filename b
      \<and> recordCount (snd (snd (readRecord r b))) = recordCount b + (if fst (readRecord r b) then 1 else 0))"

definition gather_post :: "ZipCodeBuffer \<Rightarrow> ZipCodeRecord list \<times> ZipCodeBuffer \<Rightarrow> ZipCodeRecord list \<Rightarrow> bool" where
  "gather_post b res records =
     (fst res = records
      \<and> stream_ok (fileStream (snd res))
      \<and> content (fileStream (snd res)) = content (fileStream b)
      \<and> filename (snd res) = filename b)"

subsection \<open>Example inputs\<close>

text \<open>
  A header line, a line that parses, a line with five fields and a line whose first
  field is not a number; files made of them; and a file system holding the files.
\<close>

definition example_header :: string where
  "example_header = ''ZipCode,PlaceName,State,County,Lat,Long''"

definition line_valid :: string where
  "line_valid = ''10002,New York,NY,New York,40.5,-74''"

definition line_short :: string where
  "line_short = ''10001,New York,NY,New York,40.5''"

definition line_nonnumeric :: string where
  "line_nonnumeric = ''ABCDE,New York,NY,New York,40.5,-74''"

definition record_valid :: ZipCodeRecord where
  "record_valid =
     \<lparr>zipCode = 10002, placeName = ''New York'', state = ''NY'', county = ''New York'',
      latitude = Finite (81 / 2), longitude = Finite (- 74)\<rparr>"

definition file_skip :: string where
  "file_skip = example_header @ [CHR 0x0A] @ line_short @ [CHR 0x0A] @ line_valid @ [CHR 0x0A]"

definition file_valid :: string where
  "file_valid = example_header @ [CHR 0x0A] @ line_valid @ [CHR 0x0A]"

definition file_header_only :: string where
  "file_header_only = example_header @ [CHR 0x0A]"

definition example_fs :: filesystem where
  "example_fs =
     [''zips.csv'' \<mapsto> file_valid, ''skip.csv'' \<mapsto> file_skip,
      ''header.csv'' \<mapsto> file_header_only, ''empty.csv'' \<mapsto> []]"





text \<open>
  Records of one state with one longitude and latitude, with the codes 10023, 10005 and
  0; the line that parses to the last of them; and the entry of the state after the
  first of them.
\<close>

definition record_10023 :: ZipCodeRecord where
  "record_10023 =
     \<lparr>zipCode = 10023, placeName = ''New York'', state = ''NY'', county = ''New York'',
      latitude = Finite (81 / 2), longitude = Finite (- 74)\<rparr>"

definition record_10005 :: ZipCodeRecord where
  "record_10005 =
     \<lparr>zipCode = 10005, placeName = ''New York'', state = ''NY'', county = ''New York'',
      latitude = Finite (81 / 2), longitude = Finite (- 74)\<rparr>"

definition record_0 :: ZipCodeRecord where
  "record_0 =
     \<lparr>zipCode = 0, placeName = ''New York'', state = ''NY'', county = ''New York'',
      latitude = Finite (81 / 2), longitude = Finite (- 74)\<rparr>"

definition line_0 :: string where
  "line_0 = ''00000,New York,NY,New York,40.5,-74''"

definition extremes_10023 :: StateExtremes where
  "extremes_10023 =
     \<lparr>easternmost = 10023, westernmost = 10023, northernmost = 10023, southernmost = 10023,
      minLongitude = Finite (- 74), maxLongitude = Finite (- 74),
      maxLatitude = Finite (81 / 2), minLatitude = Finite (81 / 2)\<rparr>"

section \<open>Properties\<close>

subsection \<open>Field splitting\<close>

lemma upt_Suc_shift: "[0..<Suc n] = 0 # map Suc [0..<n]"
  by (simp add: upt_conv_Cons map_Suc_upt del: upt_Suc)

lemma even_flip: "(even (n::nat) = (\<not> q)) = (odd n = q)"
  by auto

lemma pieces_shift: "pieces (Suc a) (map Suc ss) (c # cs) = pieces a ss cs"
  by (induction ss arbitrary: a) simp_all

lemma pieces_0_shift:
  "pieces 0 (map Suc ss) (c # cs) =
     (case pieces 0 ss cs of p # ps \<Rightarrow> (filter (\<lambda>c. c \<noteq> CHR ''\"'') [c] @ p) # ps)"
  by (cases ss) (simp_all add: pieces_shift)

lemma pieces_nonempty: "pieces a ss line \<noteq> []"
  by (cases ss) simp_all

lemma splitCSV_loop_pieces:
  "splitCSV_loop cs fs cur q =
     fs @ (case pieces 0 (filter (\<lambda>i. cs ! i = CHR '','' \<and> (odd (count_list (take i cs) (CHR ''\"'')) = q)) [0..<length cs]) cs of
             p # ps \<Rightarrow> (cur @ p) # ps)"
proof (induction cs arbitrary: fs cur q)
  case Nil
  then show ?case by simp
next
  case (Cons c cs)
  let ?S = "\<lambda>q. filter (\<lambda>i. cs ! i = CHR '','' \<and> (odd (count_list (take i cs) (CHR ''\"'')) = q)) [0..<length cs]"
  show ?case
  proof (cases "c = CHR ''\"''")
    case True
    have "filter (\<lambda>i. (c # cs) ! i = CHR '','' \<and> (odd (count_list (take i (c # cs)) (CHR ''\"'')) = q)) [0..<length (c # cs)]
        = map Suc (?S (\<not> q))"
      unfolding length_Cons upt_Suc_shift using True
      by (simp add: filter_map comp_def even_flip del: upt_Suc)
    then show ?thesis
      using True pieces_nonempty [of 0 "?S (\<not> q)" cs]
      by (simp add: Cons.IH pieces_0_shift split: list.splits del: upt_Suc)
  next
    case False
    show ?thesis
    proof (cases "c = CHR '','' \<and> \<not> q")
      case True
      have "filter (\<lambda>i. (c # cs) ! i = CHR '','' \<and> (odd (count_list (take i (c # cs)) (CHR ''\"'')) = q)) [0..<length (c # cs)]
          = 0 # map Suc (?S q)"
        unfolding length_Cons upt_Suc_shift using True
        by (simp add: filter_map comp_def del: upt_Suc)
      then show ?thesis
        using True pieces_nonempty [of 0 "?S q" cs]
        by (simp add: Cons.IH pieces_shift split: list.splits del: upt_Suc)
    next
      case nosep: False
      have "filter (\<lambda>i. (c # cs) ! i = CHR '','' \<and> (odd (count_list (take i (c # cs)) (CHR ''\"'')) = q)) [0..<length (c # cs)]
          = map Suc (?S q)"
        unfolding length_Cons upt_Suc_shift using False nosep
        by (auto simp add: filter_map comp_def simp del: upt_Suc)
      then show ?thesis
        using False nosep pieces_nonempty [of 0 "?S q" cs]
        by (auto simp add: Cons.IH pieces_0_shift split: list.splits simp del: upt_Suc)
    qed
  qed
qed

lemma splitCSV_pieces: "splitCSV line = pieces 0 (separators line) line"
  using pieces_nonempty [of 0 "separators line" line]
  by (simp add: splitCSV_def splitCSV_loop_pieces separators_def inQuotes_at_def split: list.splits)

lemma pieces_length: "length (pieces a ss line) = Suc (length ss)"
  by (induction ss arbitrary: a) simp_all

lemma pieces_no_quote: "CHR ''\"'' \<notin> set (concat (pieces a ss line))"
  by (induction ss arbitrary: a) simp_all

text \<open>
  C4. \<^verbatim>\<open>splitCSV\<close> is the quote-toggle split: the line is cut at exactly the commas that
  an even number of quote characters precede, the fields are the pieces between these
  commas without their quote characters (so there is one more field than such commas
  and no field holds a quote character); and the line
  \<^verbatim>\<open>"10001","New York, NY","NY","New York",40.7128,-74.0060\<close> splits into six fields,
  the second of them \<^verbatim>\<open>New York, NY\<close> with its comma.
\<close>

theorem splitCSV_quote_toggle:
  "splitCSV line = pieces 0 (separators line) line
   \<and> length (splitCSV line) = Suc (length (separators line))
   \<and> CHR ''\"'' \<notin> set (concat (splitCSV line))
   \<and> splitCSV ''\"10001\",\"New York, NY\",\"NY\",\"New York\",40.7128,-74.0060''
       = [''10001'', ''New York, NY'', ''NY'', ''New York'', ''40.7128'', ''-74.0060'']"
proof -
  have "splitCSV ''\"10001\",\"New York, NY\",\"NY\",\"New York\",40.7128,-74.0060''
       = [''10001'', ''New York, NY'', ''NY'', ''New York'', ''40.7128'', ''-74.0060'']"
    by (simp add: splitCSV_def)
  moreover have "length (splitCSV line) = Suc (length (separators line))"
    unfolding splitCSV_pieces by (rule pieces_length)
  moreover have "CHR ''\"'' \<notin> set (concat (splitCSV line))"
    unfolding splitCSV_pieces by (rule pieces_no_quote)
  ultimately show ?thesis
    using splitCSV_pieces [of line] by (intro conjI)
qed

subsection \<open>Reading line by line\<close>

lemma lines_of_Nil_iff: "lines_of inp = [] \<longleftrightarrow> inp = []"
  by (cases inp) (auto split: list.splits)

lemma lines_of_step:
  "inp \<noteq> [] \<Longrightarrow>
   lines_of inp = takeWhile (\<lambda>c. c \<noteq> CHR 0x0A) inp # lines_of (tl (dropWhile (\<lambda>c. c \<noteq> CHR 0x0A) inp))"
proof (induction inp)
  case Nil
  then show ?case by simp
next
  case (Cons c cs)
  show ?case
  proof (cases "cs = []")
    case True
    then show ?thesis by simp
  next
    case False
    then show ?thesis using Cons.IH by simp
  qed
qed

lemma getline_fail:
  assumes "stream_ok s" "unread s = []"
  shows "fst (getline s) = False" "unread (snd (snd (getline s))) = []"
    "stream_ok (snd (snd (getline s)))" "content (snd (snd (getline s))) = content s"
  using assms by (simp_all add: getline_def stream_ok_def good_def)

lemma getline_success:
  assumes "stream_ok s" "unread s \<noteq> []"
  shows "fst (getline s) = True"
    "fst (snd (getline s)) = takeWhile (\<lambda>c. c \<noteq> CHR 0x0A) (unread s)"
    "content (snd (snd (getline s))) = content s"
    "unread (snd (snd (getline s))) = tl (dropWhile (\<lambda>c. c \<noteq> CHR 0x0A) (unread s))"
    "stream_ok (snd (snd (getline s)))"
proof -
  let ?d = "dropWhile (\<lambda>c. c \<noteq> CHR 0x0A) (unread s)"
  have g: "getline s =
      (if ?d = [] then (True, takeWhile (\<lambda>c. c \<noteq> CHR 0x0A) (unread s), s\<lparr>unread := [], eofbit := True\<rparr>)
       else (True, takeWhile (\<lambda>c. c \<noteq> CHR 0x0A) (unread s), s\<lparr>unread := tl ?d\<rparr>))"
    using assms unfolding getline_def stream_ok_def Let_def by (simp del: dropWhile_eq_Nil_conv)
  show "fst (getline s) = True"
    "fst (snd (getline s)) = takeWhile (\<lambda>c. c \<noteq> CHR 0x0A) (unread s)"
    "content (snd (snd (getline s))) = content s"
    unfolding g by (simp_all del: dropWhile_eq_Nil_conv)
  show "unread (snd (snd (getline s))) = tl ?d"
    unfolding g by (cases "?d = []") (simp_all del: dropWhile_eq_Nil_conv)
  show "stream_ok (snd (snd (getline s)))"
    unfolding g using assms
    by (cases "?d = []") (simp_all add: stream_ok_def good_def del: dropWhile_eq_Nil_conv)
qed

lemma getline_lines:
  assumes "stream_ok s"
  shows "(case lines_of (unread s) of
            [] \<Rightarrow> \<not> fst (getline s) \<and> lines_of (unread (snd (snd (getline s)))) = []
          | l # ls \<Rightarrow> fst (getline s) \<and> fst (snd (getline s)) = l
                \<and> lines_of (unread (snd (snd (getline s)))) = ls)"
proof (cases "unread s = []")
  case True
  then show ?thesis using getline_fail [OF assms] by simp
next
  case False
  then show ?thesis
    using getline_success [OF assms] lines_of_step [of "unread s"] by simp
qed


lemma readRecord_closed: "\<not> is_open (fileStream b) \<Longrightarrow> readRecord r b = (False, r, b)"
  by (subst readRecord.simps) simp

lemma readRecord_unfold:
  "is_open (fileStream b) \<Longrightarrow>
   readRecord r b =
     (if fst (getline (fileStream b)) then
        (if is_blank (fst (snd (getline (fileStream b))))
         then readRecord r (b\<lparr>fileStream := snd (snd (getline (fileStream b)))\<rparr>)
         else if fst (parseLine (fst (snd (getline (fileStream b)))) r)
         then (True, snd (parseLine (fst (snd (getline (fileStream b)))) r),
               b\<lparr>fileStream := snd (snd (getline (fileStream b))), recordCount := recordCount b + 1\<rparr>)
         else (False, snd (parseLine (fst (snd (getline (fileStream b)))) r),
               b\<lparr>fileStream := snd (snd (getline (fileStream b)))\<rparr>))
      else (False, r, b\<lparr>fileStream := snd (snd (getline (fileStream b)))\<rparr>))"
  by (subst readRecord.simps) (simp add: is_blank_def split: prod.splits)

lemma readRecord_lines_aux:
  "lines_of (unread (fileStream b)) = ls \<Longrightarrow> stream_ok (fileStream b) \<Longrightarrow>
   readRecord_post r b (dropWhile is_blank ls)"
proof (induction ls arbitrary: b)
  case Nil
  then have u: "unread (fileStream b) = []"
    by (simp add: lines_of_Nil_iff)
  have o: "is_open (fileStream b)"
    using Nil.prems(2) by (simp add: stream_ok_def)
  show ?case
    using getline_fail [OF Nil.prems(2) u]
    by (simp add: readRecord_post_def readRecord_unfold [OF o])
next
  case (Cons l ls)
  let ?g = "getline (fileStream b)"
  have o: "is_open (fileStream b)"
    using Cons.prems(2) by (simp add: stream_ok_def)
  have g: "fst ?g" "fst (snd ?g) = l" "lines_of (unread (snd (snd ?g))) = ls"
    using getline_lines [OF Cons.prems(2)] Cons.prems(1) by simp_all
  have u: "unread (fileStream b) \<noteq> []"
    using Cons.prems(1) by auto
  note s = getline_success [OF Cons.prems(2) u]
  show ?case
  proof (cases "is_blank l")
    case True
    have "readRecord_post r (b\<lparr>fileStream := snd (snd ?g)\<rparr>) (dropWhile is_blank ls)"
      by (rule Cons.IH) (simp_all add: g s(5))
    moreover have "readRecord r b = readRecord r (b\<lparr>fileStream := snd (snd ?g)\<rparr>)"
      by (subst readRecord_unfold [OF o]) (simp add: g True)
    ultimately show ?thesis
      using True by (simp add: readRecord_post_def s(3))
  next
    case False
    then show ?thesis
      by (simp add: readRecord_post_def readRecord_unfold [OF o] g s(3) s(5))
  qed
qed

lemma readRecord_lines:
  "stream_ok (fileStream b) \<Longrightarrow>
   readRecord_post r b (dropWhile is_blank (lines_of (unread (fileStream b))))"
  by (rule readRecord_lines_aux) simp_all


lemma parseLine_fst: "fst (parseLine l r) = (parse l \<noteq> None)"
  by (simp add: parse_def parseLine_def Let_def split: sum.splits prod.splits)

lemma parseLine_snd: "fst (parseLine l r) \<Longrightarrow> snd (parseLine l r) = the (parse l)"
  by (simp add: parse_def parseLine_def Let_def split: sum.splits prod.splits if_splits)

lemma collect_dropWhile:
  "collect ls =
     (case dropWhile is_blank ls of
        [] \<Rightarrow> []
      | l # rest \<Rightarrow> (case parse l of None \<Rightarrow> [] | Some record \<Rightarrow> record # collect rest))"
  by (induction ls) simp_all

lemma collect_takeWhile:
  "collect ls = map (the \<circ> parse) (takeWhile (\<lambda>l. parse l \<noteq> None) (filter (\<lambda>l. \<not> is_blank l) ls))"
  by (induction ls) (auto split: option.splits)

lemma gatherAllRecords_loop_unfold:
  "gatherAllRecords_loop r acc b =
     (if fst (readRecord r b)
      then gatherAllRecords_loop (fst (snd (readRecord r b))) (acc @ [fst (snd (readRecord r b))])
             (snd (snd (readRecord r b)))
      else (acc, snd (snd (readRecord r b))))"
  by (subst gatherAllRecords_loop.simps) (simp split: prod.splits)

lemma gatherAllRecords_loop_lines:
  "stream_ok (fileStream b) \<Longrightarrow>
   gather_post b (gatherAllRecords_loop r acc b) (acc @ collect (lines_of (unread (fileStream b))))"
proof (induction r acc b rule: gatherAllRecords_loop.induct)
  case (1 r acc b)
  let ?rr = "readRecord r b"
  define ls where "ls = dropWhile is_blank (lines_of (unread (fileStream b)))"
  have post: "readRecord_post r b ls"
    unfolding ls_def using "1.prems" by (rule readRecord_lines)
  have c: "collect (lines_of (unread (fileStream b))) =
      (case ls of [] \<Rightarrow> [] | l # rest \<Rightarrow> (case parse l of None \<Rightarrow> [] | Some record \<Rightarrow> record # collect rest))"
    unfolding ls_def by (rule collect_dropWhile)
  show ?case
  proof (cases "fst ?rr")
    case False
    then have "collect (lines_of (unread (fileStream b))) = []"
      using post unfolding c readRecord_post_def
      by (cases ls) (simp_all add: parseLine_fst)
    then show ?thesis
      using False post
      by (subst gatherAllRecords_loop_unfold) (simp add: gather_post_def readRecord_post_def)
  next
    case True
    then obtain l rest where ls: "ls = l # rest"
      using post unfolding readRecord_post_def by (cases ls) simp_all
    from True post have p: "fst (parseLine l r)" and r': "fst (snd ?rr) = snd (parseLine l r)"
      and u: "lines_of (unread (fileStream (snd (snd ?rr)))) = rest"
      and ok: "stream_ok (fileStream (snd (snd ?rr)))"
      and k: "content (fileStream (snd (snd ?rr))) = content (fileStream b)"
        "filename (snd (snd ?rr)) = filename b"
      unfolding readRecord_post_def ls by simp_all
    have "gather_post (snd (snd ?rr))
        (gatherAllRecords_loop (fst (snd ?rr)) (acc @ [fst (snd ?rr)]) (snd (snd ?rr)))
        ((acc @ [fst (snd ?rr)]) @ collect (lines_of (unread (fileStream (snd (snd ?rr))))))"
      using True ok
      by (intro "1.IH" [of "fst ?rr" "snd ?rr" "fst (snd ?rr)" "snd (snd ?rr)"])
        (simp_all add: prod_eq_iff)
    moreover have "collect (lines_of (unread (fileStream b))) = the (parse l) # collect rest"
      unfolding c ls using p by (auto simp add: parseLine_fst)
    ultimately show ?thesis
      using True p
      by (subst gatherAllRecords_loop_unfold) (simp add: gather_post_def r' u k parseLine_snd)
  qed
qed


lemma seekg_beg_clear:
  "is_open s \<Longrightarrow> seekg_beg (clear s) = s\<lparr>unread := content s, eofbit := False, failbit := False\<rparr>"
  by (simp add: seekg_beg_def clear_def)

lemma reset_closed: "\<not> is_open (fileStream b) \<Longrightarrow> reset b = (False, b)"
  by (simp add: reset_def)

lemma reset_open:
  assumes "is_open (fileStream b)"
  shows "fst (reset b) = (content (fileStream b) \<noteq> [])"
    and "lines_of (unread (fileStream (snd (reset b)))) = tl (lines_of (content (fileStream b)))"
    and "stream_ok (fileStream (snd (reset b)))"
    and "content (fileStream (snd (reset b))) = content (fileStream b)"
    and "filename (snd (reset b)) = filename b"
proof -
  let ?s = "(fileStream b)\<lparr>unread := content (fileStream b), eofbit := False, failbit := False\<rparr>"
  have ok: "stream_ok ?s"
    using assms by (simp add: stream_ok_def good_def)
  have r: "reset b =
      (if \<not> fst (getline ?s) then (False, b\<lparr>fileStream := snd (snd (getline ?s))\<rparr>)
       else (True, b\<lparr>fileStream := snd (snd (getline ?s)), recordCount := 0\<rparr>))"
    using assms by (simp add: reset_def seekg_beg_clear split: prod.splits)
  have f: "fileStream (snd (reset b)) = snd (snd (getline ?s))"
    unfolding r by simp
  show "filename (snd (reset b)) = filename b"
    unfolding r by simp
  show "fst (reset b) = (content (fileStream b) \<noteq> [])"
    unfolding r using getline_fail(1) [OF ok] getline_success(1) [OF ok]
    by (cases "content (fileStream b) = []") simp_all
  show "lines_of (unread (fileStream (snd (reset b)))) = tl (lines_of (content (fileStream b)))"
    unfolding f using getline_lines [OF ok]
    by (cases "lines_of (content (fileStream b))") simp_all
  show "stream_ok (fileStream (snd (reset b)))"
    unfolding f using getline_fail(3) [OF ok] getline_success(5) [OF ok]
    by (cases "content (fileStream b) = []") simp_all
  show "content (fileStream (snd (reset b))) = content (fileStream b)"
    unfolding f using getline_fail(4) [OF ok] getline_success(3) [OF ok]
    by (cases "content (fileStream b) = []") simp_all
qed

lemma gatherAllRecords_closed:
  assumes "\<not> is_open (fileStream b)"
  shows "gatherAllRecords b = ([], b)"
proof -
  have "gatherAllRecords_loop r [] b = ([], b)" for r
    by (subst gatherAllRecords_loop_unfold) (simp add: readRecord_closed [OF assms])
  then show ?thesis
    by (simp add: gatherAllRecords_def reset_closed [OF assms])
qed

lemma gatherAllRecords_lines:
  assumes "is_open (fileStream b)"
  shows "fst (gatherAllRecords b) = collect (tl (lines_of (content (fileStream b))))"
    and "is_open (fileStream (snd (gatherAllRecords b)))"
    and "content (fileStream (snd (gatherAllRecords b))) = content (fileStream b)"
    and "filename (snd (gatherAllRecords b)) = filename b"
proof -
  let ?b1 = "snd (reset b)"
  let ?l = "gatherAllRecords_loop ZipCodeRecord_default [] ?b1"
  have g: "gatherAllRecords b = (fst ?l, snd (reset (snd ?l)))"
    by (simp add: gatherAllRecords_def split: prod.splits)
  note r = reset_open [OF assms]
  have p: "gather_post ?b1 ?l ([] @ collect (lines_of (unread (fileStream ?b1))))"
    using r(3) by (rule gatherAllRecords_loop_lines)
  then have o: "is_open (fileStream (snd ?l))"
    by (simp add: gather_post_def stream_ok_def)
  note r2 = reset_open [OF o]
  show "fst (gatherAllRecords b) = collect (tl (lines_of (content (fileStream b))))"
    unfolding g using p by (simp add: gather_post_def r(2))
  show "is_open (fileStream (snd (gatherAllRecords b)))"
    unfolding g using r2(3) by (simp add: stream_ok_def)
  show "content (fileStream (snd (gatherAllRecords b))) = content (fileStream b)"
    unfolding g using p by (simp add: gather_post_def r2(4) r(4))
  show "filename (snd (gatherAllRecords b)) = filename b"
    unfolding g using p by (simp add: gather_post_def r2(5) r(5))
qed

subsection \<open>Evaluation of the examples, opening a file\<close>

lemmas conversion_defs =
  stoi_def stod_def read_sign_def isspace_def isdigit_def isxdigit_def tolower_def
  digit_value_def digits_value_def read_literal_def read_exponent_def

lemmas rounding_defs =
  round_to_double_def floor_log2_def round_at_def round_half_even_def exact_at_def scale_def

lemma floorlog_values:
  "floorlog 2 405 = 9" "floorlog 2 10 = 4" "floorlog 2 74 = 7" "floorlog 2 (Suc 0) = 1"
  "floorlog 2 3 = 2" "floorlog 2 4 = 3"
  by (simp_all add: compute_floorlog)

lemma round_to_double_values:
  "round_to_double 405 10 = Inr (81 / 2)"
  "round_to_double 74 (Suc 0) = Inr 74"
  "round_to_double 3 (Suc 0) = Inr 3"
  "round_to_double 4 (Suc 0) = Inr 4"
  by (simp_all add: rounding_defs floorlog_values)

lemmas trim_defs = trim_def find_first_not_of_def find_last_not_of_def substr_def whitespace_def

lemma parseLine_valid: "parseLine line_valid r = (True, record_valid)"
  by (simp add: parseLine_def line_valid_def record_valid_def splitCSV_def trim_defs conversion_defs
      round_to_double_values)

lemma parseLine_short: "parseLine line_short r = (False, r)"
  by (simp add: parseLine_def line_short_def splitCSV_def)

lemma parseLine_nonnumeric: "parseLine line_nonnumeric r = (False, r)"
  by (simp add: parseLine_def line_nonnumeric_def splitCSV_def trim_defs conversion_defs)

lemma blank_examples: "\<not> is_blank line_valid" "\<not> is_blank line_short" "\<not> is_blank line_nonnumeric"
  by (simp_all add: is_blank_def line_valid_def line_short_def line_nonnumeric_def trim_defs)

lemma lines_of_line:
  "CHR 0x0A \<notin> set l \<Longrightarrow> lines_of (l @ CHR 0x0A # rest) = l # lines_of rest"
  by (induction l) auto

lemma lines_of_last: "CHR 0x0A \<notin> set l \<Longrightarrow> l \<noteq> [] \<Longrightarrow> lines_of l = [l]"
proof (induction l)
  case Nil
  then show ?case by simp
next
  case (Cons a l)
  then show ?case by (cases "l = []") auto
qed

lemma no_newline_examples:
  "CHR 0x0A \<notin> set example_header" "CHR 0x0A \<notin> set line_valid"
  "CHR 0x0A \<notin> set line_short" "CHR 0x0A \<notin> set line_nonnumeric"
  by (simp_all add: example_header_def line_valid_def line_short_def line_nonnumeric_def)

lemma lines_of_file_skip: "lines_of file_skip = [example_header, line_short, line_valid]"
  by (simp add: file_skip_def lines_of_line no_newline_examples)

lemma close_props:
  "\<not> is_open (fileStream (close b))" "filename (close b) = []" "recordCount (close b) = 0"
  "headerSkipped (close b) = False"
  by (simp_all add: close_def ifstream_close_def Let_def)

lemma open_file_missing:
  assumes "fsys p = None"
  shows "fst (open_file fsys p b) = False"
    and "filename (snd (open_file fsys p b)) = p"
    and "\<not> is_open (fileStream (snd (open_file fsys p b)))"
  using assms close_props(1) [of b]
  by (simp_all add: open_file_def Let_def ifstream_open_def)

lemma open_file_found:
  assumes "fsys p = Some c"
  shows "fst (open_file fsys p b) = (c \<noteq> [])"
    and "filename (snd (open_file fsys p b)) = (if c = [] then [] else p)"
    and "is_open (fileStream (snd (open_file fsys p b))) = (c \<noteq> [])"
    and "c \<noteq> [] \<Longrightarrow> content (fileStream (snd (open_file fsys p b))) = c"
    and "c \<noteq> [] \<Longrightarrow> recordCount (snd (open_file fsys p b)) = 0"
proof -
  let ?s = "(fileStream (close b))\<lparr>is_open := True, content := c, unread := c, eofbit := False,
      failbit := False\<rparr>"
  have ok: "stream_ok ?s"
    by (simp add: stream_ok_def good_def)
  have o: "open_file fsys p b =
      (if fst (getline ?s)
       then (True, (close b)\<lparr>filename := p, fileStream := snd (snd (getline ?s)),
               headerSkipped := True, recordCount := 0\<rparr>)
       else (False, close ((close b)\<lparr>filename := p, fileStream := snd (snd (getline ?s))\<rparr>)))"
    using assms close_props(1) [of b]
    by (simp add: open_file_def Let_def ifstream_open_def split: prod.splits)
  show "fst (open_file fsys p b) = (c \<noteq> [])"
    unfolding o using getline_fail(1) [OF ok] getline_success(1) [OF ok]
    by (cases "c = []") simp_all
  show "filename (snd (open_file fsys p b)) = (if c = [] then [] else p)"
    unfolding o using getline_fail(1) [OF ok] getline_success(1) [OF ok]
    by (cases "c = []") (simp_all add: close_props)
  show "is_open (fileStream (snd (open_file fsys p b))) = (c \<noteq> [])"
    unfolding o using getline_fail(1) [OF ok] getline_success(1,5) [OF ok]
    by (cases "c = []") (simp_all add: close_props stream_ok_def)
  show "content (fileStream (snd (open_file fsys p b))) = c" if "c \<noteq> []"
    unfolding o using that getline_success(1,3) [OF ok] by simp
  show "recordCount (snd (open_file fsys p b)) = 0" if "c \<noteq> []"
    unfolding o using that getline_success(1) [OF ok] by simp
qed

lemma open_file_found_stream:
  assumes "fsys p = Some c" "c \<noteq> []"
  shows "stream_ok (fileStream (snd (open_file fsys p b)))"
    and "lines_of (unread (fileStream (snd (open_file fsys p b)))) = tl (lines_of c)"
proof -
  let ?s = "(fileStream (close b))\<lparr>is_open := True, content := c, unread := c, eofbit := False,
      failbit := False\<rparr>"
  have ok: "stream_ok ?s"
    by (simp add: stream_ok_def good_def)
  have u: "unread ?s \<noteq> []"
    using assms(2) by simp
  have "open_file fsys p b =
      (if fst (getline ?s)
       then (True, (close b)\<lparr>filename := p, fileStream := snd (snd (getline ?s)),
               headerSkipped := True, recordCount := 0\<rparr>)
       else (False, close ((close b)\<lparr>filename := p, fileStream := snd (snd (getline ?s))\<rparr>)))"
    using assms close_props(1) [of b]
    by (simp add: open_file_def Let_def ifstream_open_def split: prod.splits)
  then have o: "open_file fsys p b =
      (True, (close b)\<lparr>filename := p, fileStream := snd (snd (getline ?s)),
               headerSkipped := True, recordCount := 0\<rparr>)"
    using getline_success(1) [OF ok u] by simp
  show "stream_ok (fileStream (snd (open_file fsys p b)))"
    unfolding o using getline_success(5) [OF ok u] by simp
  show "lines_of (unread (fileStream (snd (open_file fsys p b)))) = tl (lines_of c)"
    unfolding o using getline_lines [OF ok] assms(2)
    by (cases "lines_of c") (simp_all add: lines_of_Nil_iff)
qed

lemma example_fs_simps:
  "example_fs ''zips.csv'' = Some file_valid" "example_fs ''skip.csv'' = Some file_skip"
  "example_fs ''header.csv'' = Some file_header_only" "example_fs ''empty.csv'' = Some []"
  "example_fs ''missing.csv'' = None"
  by (simp_all add: example_fs_def)

lemma files_nonempty: "file_valid \<noteq> []" "file_skip \<noteq> []" "file_header_only \<noteq> []"
  by (simp_all add: file_valid_def file_skip_def file_header_only_def example_header_def)

lemma lines_of_file_valid: "lines_of file_valid = [example_header, line_valid]"
  by (simp add: file_valid_def lines_of_line no_newline_examples)

lemma lines_of_file_header_only: "lines_of file_header_only = [example_header]"
  by (simp add: file_header_only_def lines_of_line no_newline_examples)

lemma parse_examples:
  "parse line_valid = Some record_valid" "parse line_short = None" "parse line_nonnumeric = None"
  by (simp_all add: parse_def parseLine_valid parseLine_short parseLine_nonnumeric)

subsection \<open>Bulk reading\<close>

text \<open>
  C9. Round trip: for every buffer, \<^verbatim>\<open>reset()\<close> after \<^verbatim>\<open>gatherAllRecords()\<close> followed by
  \<^verbatim>\<open>gatherAllRecords()\<close> again yields the same sequence of records as the first call.
\<close>

theorem gatherAllRecords_reset_roundtrip:
  "fst (gatherAllRecords (snd (reset (snd (gatherAllRecords b))))) = fst (gatherAllRecords b)"
proof (cases "is_open (fileStream b)")
  case False
  then show ?thesis
    by (simp add: gatherAllRecords_closed reset_closed)
next
  case True
  note g = gatherAllRecords_lines [OF True]
  note r = reset_open [OF g(2)]
  have o: "is_open (fileStream (snd (reset (snd (gatherAllRecords b)))))"
    using r(3) by (simp add: stream_ok_def)
  show ?thesis
    using gatherAllRecords_lines(1) [OF o] by (simp add: g r(4))
qed

text \<open>
  The round trip on the file \<^verbatim>\<open>zips.csv\<close> of the examples: both bulk reads yield its one
  record.
\<close>

theorem gatherAllRecords_reset_roundtrip_witness:
  "fst (gatherAllRecords (snd (reset (snd (gatherAllRecords
      (snd (open_file example_fs ''zips.csv'' ZipCodeBuffer_init)))))))
     = [record_valid]
   \<and> fst (gatherAllRecords (snd (open_file example_fs ''zips.csv'' ZipCodeBuffer_init)))
     = [record_valid]"
proof -
  let ?b = "snd (open_file example_fs ''zips.csv'' ZipCodeBuffer_init)"
  note f = open_file_found [where fsys = example_fs and p = "''zips.csv''", OF example_fs_simps(1)]
  have o: "is_open (fileStream ?b)"
    by (simp add: f(3) files_nonempty)
  have c: "content (fileStream ?b) = file_valid"
    by (simp add: f(4) files_nonempty)
  have "fst (gatherAllRecords ?b) = [record_valid]"
    by (simp add: gatherAllRecords_lines(1) [OF o] c lines_of_file_valid blank_examples parse_examples)
  then show ?thesis
    using gatherAllRecords_reset_roundtrip [of ?b] by simp
qed

text \<open>
  C10. When \<^verbatim>\<open>readRecord\<close> fails on a line that does not parse, the line has been
  consumed: the lines left to read are those after it, the stream is still readable, and
  the next call of \<^verbatim>\<open>readRecord\<close> (with any record) behaves as a call on those lines,
  returning the parse of the first non-blank one of them.
\<close>

theorem readRecord_parse_error_consumes_line:
  assumes "stream_ok (fileStream b)"
    and "dropWhile is_blank (lines_of (unread (fileStream b))) = line # rest"
    and "\<not> fst (parseLine line r)"
  shows "\<not> fst (readRecord r b)
    \<and> lines_of (unread (fileStream (snd (snd (readRecord r b))))) = rest
    \<and> stream_ok (fileStream (snd (snd (readRecord r b))))
    \<and> readRecord_post r' (snd (snd (readRecord r b))) (dropWhile is_blank rest)"
proof -
  have p: "readRecord_post r b (line # rest)"
    using readRecord_lines [OF assms(1), of r] unfolding assms(2) .
  then have a: "\<not> fst (readRecord r b)"
    and b: "lines_of (unread (fileStream (snd (snd (readRecord r b))))) = rest"
    and c: "stream_ok (fileStream (snd (snd (readRecord r b))))"
    using assms(3) by (simp_all add: readRecord_post_def)
  have "readRecord_post r' (snd (snd (readRecord r b))) (dropWhile is_blank rest)"
    using readRecord_lines [OF c, of r'] unfolding b .
  with a b c show ?thesis by simp
qed


lemma skip_buffer:
  "is_open (fileStream (snd (open_file example_fs ''skip.csv'' ZipCodeBuffer_init)))"
  "content (fileStream (snd (open_file example_fs ''skip.csv'' ZipCodeBuffer_init))) = file_skip"
  "stream_ok (fileStream (snd (open_file example_fs ''skip.csv'' ZipCodeBuffer_init)))"
  "lines_of (unread (fileStream (snd (open_file example_fs ''skip.csv'' ZipCodeBuffer_init))))
     = [line_short, line_valid]"
  "fst (open_file example_fs ''skip.csv'' ZipCodeBuffer_init)"
  using open_file_found [where fsys = example_fs and p = "''skip.csv''", OF example_fs_simps(2)]
    open_file_found_stream [where fsys = example_fs and p = "''skip.csv''", OF example_fs_simps(2)]
  by (simp_all add: files_nonempty lines_of_file_skip)

lemma header_buffer:
  "is_open (fileStream (snd (open_file example_fs ''header.csv'' ZipCodeBuffer_init)))"
  "content (fileStream (snd (open_file example_fs ''header.csv'' ZipCodeBuffer_init))) = file_header_only"
  "stream_ok (fileStream (snd (open_file example_fs ''header.csv'' ZipCodeBuffer_init)))"
  "lines_of (unread (fileStream (snd (open_file example_fs ''header.csv'' ZipCodeBuffer_init)))) = []"
  "fst (open_file example_fs ''header.csv'' ZipCodeBuffer_init)"
  using open_file_found [where fsys = example_fs and p = "''header.csv''", OF example_fs_simps(3)]
    open_file_found_stream [where fsys = example_fs and p = "''header.csv''", OF example_fs_simps(3)]
  by (simp_all add: files_nonempty lines_of_file_header_only)

lemma zips_buffer:
  "is_open (fileStream (snd (open_file example_fs ''zips.csv'' ZipCodeBuffer_init)))"
  "content (fileStream (snd (open_file example_fs ''zips.csv'' ZipCodeBuffer_init))) = file_valid"
  "stream_ok (fileStream (snd (open_file example_fs ''zips.csv'' ZipCodeBuffer_init)))"
  "lines_of (unread (fileStream (snd (open_file example_fs ''zips.csv'' ZipCodeBuffer_init))))
     = [line_valid]"
  "fst (open_file example_fs ''zips.csv'' ZipCodeBuffer_init)"
  using open_file_found [where fsys = example_fs and p = "''zips.csv''", OF example_fs_simps(1)]
    open_file_found_stream [where fsys = example_fs and p = "''zips.csv''", OF example_fs_simps(1)]
  by (simp_all add: files_nonempty lines_of_file_valid)

text \<open>
  On the file \<^verbatim>\<open>skip.csv\<close> of the examples the first call fails on the line with five
  fields and the second call returns the record of the line after it.
\<close>

theorem readRecord_parse_error_consumes_line_witness:
  "stream_ok (fileStream (snd (open_file example_fs ''skip.csv'' ZipCodeBuffer_init)))
   \<and> dropWhile is_blank (lines_of (unread (fileStream
        (snd (open_file example_fs ''skip.csv'' ZipCodeBuffer_init))))) = [line_short, line_valid]
   \<and> \<not> fst (parseLine line_short ZipCodeRecord_default)
   \<and> \<not> fst (readRecord ZipCodeRecord_default
        (snd (open_file example_fs ''skip.csv'' ZipCodeBuffer_init)))
   \<and> fst (readRecord ZipCodeRecord_default (snd (snd (readRecord ZipCodeRecord_default
        (snd (open_file example_fs ''skip.csv'' ZipCodeBuffer_init))))))
   \<and> fst (snd (readRecord ZipCodeRecord_default (snd (snd (readRecord ZipCodeRecord_default
        (snd (open_file example_fs ''skip.csv'' ZipCodeBuffer_init))))))) = record_valid"
proof -
  let ?b = "snd (open_file example_fs ''skip.csv'' ZipCodeBuffer_init)"
  have d: "dropWhile is_blank (lines_of (unread (fileStream ?b))) = [line_short, line_valid]"
    by (simp add: skip_buffer(4) blank_examples)
  have p: "\<not> fst (parseLine line_short ZipCodeRecord_default)"
    by (simp add: parseLine_short)
  show ?thesis
    using readRecord_parse_error_consumes_line [OF skip_buffer(3) d p, of ZipCodeRecord_default]
    by (simp add: d p skip_buffer(3) readRecord_post_def blank_examples parseLine_valid)
qed

text \<open>
  C1. The bulk read does not continue past a line that fails to parse: the file
  \<^verbatim>\<open>skip.csv\<close> of the examples has a header, a line with five fields and a line that
  parses, yet \<^verbatim>\<open>gatherAllRecords\<close> returns no record for it, because the loop ends at the
  first \<^verbatim>\<open>false\<close> of \<^verbatim>\<open>readRecord\<close>.
\<close>

theorem gatherAllRecords_stops_at_malformed_line:
  "lines_of file_skip = [example_header, line_short, line_valid]
   \<and> parse line_short = None
   \<and> parse line_valid = Some record_valid
   \<and> fst (open_file example_fs ''skip.csv'' ZipCodeBuffer_init)
   \<and> fst (gatherAllRecords (snd (open_file example_fs ''skip.csv'' ZipCodeBuffer_init))) = []"
  by (simp add: lines_of_file_skip parse_examples skip_buffer
      gatherAllRecords_lines(1) [OF skip_buffer(1)] blank_examples)



subsection \<open>Parsing and the result of the readers\<close>















text \<open>
  C6, as stated, fails: \<^verbatim>\<open>readRecord\<close> returns a \<^verbatim>\<open>bool\<close>, and at the end of the input
  (\<^verbatim>\<open>header.csv\<close>, nothing left to read) it returns the same flag and leaves the same
  record as on a line that fails to parse (\<^verbatim>\<open>skip.csv\<close>, the line with five fields).
\<close>

theorem readRecord_eof_and_parse_error_counterexample:
  "lines_of (unread (fileStream (snd (open_file example_fs ''header.csv'' ZipCodeBuffer_init)))) = []
   \<and> dropWhile is_blank (lines_of (unread (fileStream
        (snd (open_file example_fs ''skip.csv'' ZipCodeBuffer_init))))) = [line_short, line_valid]
   \<and> \<not> fst (parseLine line_short ZipCodeRecord_default)
   \<and> fst (readRecord ZipCodeRecord_default (snd (open_file example_fs ''header.csv'' ZipCodeBuffer_init)))
       = fst (readRecord ZipCodeRecord_default (snd (open_file example_fs ''skip.csv'' ZipCodeBuffer_init)))
   \<and> fst (snd (readRecord ZipCodeRecord_default
        (snd (open_file example_fs ''header.csv'' ZipCodeBuffer_init))))
       = fst (snd (readRecord ZipCodeRecord_default
        (snd (open_file example_fs ''skip.csv'' ZipCodeBuffer_init))))"
  using readRecord_lines [OF header_buffer(3), of ZipCodeRecord_default]
    readRecord_lines [OF skip_buffer(3), of ZipCodeRecord_default]
  by (simp add: header_buffer(4) skip_buffer(4) blank_examples readRecord_post_def parseLine_short)

text \<open>
  C6, amended. \<^verbatim>\<open>readRecord\<close> has two results: on a readable stream it returns
  \<^verbatim>\<open>true\<close>, with the parsed record and the counter incremented, exactly when a next
  non-blank line exists and parses; it returns \<^verbatim>\<open>false\<close> both at the end of the input
  (the record unchanged) and on a line that fails to parse (the record as \<^verbatim>\<open>parseLine\<close>
  left it), and also when no file is open.
\<close>

theorem readRecord_true_iff_next_line_parses:
  "(\<not> is_open (fileStream b) \<longrightarrow> readRecord r b = (False, r, b))
   \<and> (stream_ok (fileStream b) \<longrightarrow>
        fst (readRecord r b) =
          (case dropWhile is_blank (lines_of (unread (fileStream b))) of
             [] \<Rightarrow> False
           | l # rest \<Rightarrow> fst (parseLine l r))
        \<and> fst (snd (readRecord r b)) =
          (case dropWhile is_blank (lines_of (unread (fileStream b))) of
             [] \<Rightarrow> r
           | l # rest \<Rightarrow> snd (parseLine l r))
        \<and> recordCount (snd (snd (readRecord r b))) =
            recordCount b + (if fst (readRecord r b) then 1 else 0))"
proof (intro conjI impI)
  assume "\<not> is_open (fileStream b)"
  then show "readRecord r b = (False, r, b)"
    by (rule readRecord_closed)
next
  assume "stream_ok (fileStream b)"
  then have p: "readRecord_post r b (dropWhile is_blank (lines_of (unread (fileStream b))))"
    by (rule readRecord_lines)
  show "fst (readRecord r b) =
      (case dropWhile is_blank (lines_of (unread (fileStream b))) of
         [] \<Rightarrow> False
       | l # rest \<Rightarrow> fst (parseLine l r))"
    using p by (simp add: readRecord_post_def)
  show "fst (snd (readRecord r b)) =
      (case dropWhile is_blank (lines_of (unread (fileStream b))) of
         [] \<Rightarrow> r
       | l # rest \<Rightarrow> snd (parseLine l r))"
    using p by (simp add: readRecord_post_def)
  show "recordCount (snd (snd (readRecord r b))) =
      recordCount b + (if fst (readRecord r b) then 1 else 0)"
    using p by (simp add: readRecord_post_def)
qed

text \<open>
  The first read of \<^verbatim>\<open>zips.csv\<close> returns its record and counts it; a read on a buffer
  that was never opened returns \<^verbatim>\<open>false\<close>.
\<close>

theorem readRecord_true_iff_next_line_parses_witness:
  "stream_ok (fileStream (snd (open_file example_fs ''zips.csv'' ZipCodeBuffer_init)))
   \<and> readRecord ZipCodeRecord_default (snd (open_file example_fs ''zips.csv'' ZipCodeBuffer_init))
       = (True, record_valid,
          snd (snd (readRecord ZipCodeRecord_default
            (snd (open_file example_fs ''zips.csv'' ZipCodeBuffer_init)))))
   \<and> recordCount (snd (snd (readRecord ZipCodeRecord_default
        (snd (open_file example_fs ''zips.csv'' ZipCodeBuffer_init))))) = 1
   \<and> \<not> is_open (fileStream ZipCodeBuffer_init)
   \<and> readRecord ZipCodeRecord_default ZipCodeBuffer_init
       = (False, ZipCodeRecord_default, ZipCodeBuffer_init)"
proof -
  let ?b = "snd (open_file example_fs ''zips.csv'' ZipCodeBuffer_init)"
  have c: "recordCount ?b = 0"
    using open_file_found(5) [where fsys = example_fs and p = "''zips.csv''", OF example_fs_simps(1)]
    by (simp add: files_nonempty)
  have n: "\<not> is_open (fileStream ZipCodeBuffer_init)"
    by (simp add: ZipCodeBuffer_init_def ifstream_init_def)
  show ?thesis
    using readRecord_true_iff_next_line_parses [of ?b ZipCodeRecord_default]
      readRecord_true_iff_next_line_parses [of ZipCodeBuffer_init ZipCodeRecord_default]
    by (simp add: zips_buffer(3,4) blank_examples parseLine_valid c n prod_eq_iff)
qed

subsection \<open>The name of the source\<close>

text \<open>
  C7. After \<^verbatim>\<open>open\<close> fails on a path at which there is no file, no source is open,
  yet \<^verbatim>\<open>getFilename\<close> returns the path, not the empty string: \<^verbatim>\<open>open\<close> stores the
  name before it tries the file and returns without resetting it.
\<close>

theorem getFilename_after_failed_open:
  "example_fs ''missing.csv'' = None
   \<and> \<not> fst (open_file example_fs ''missing.csv'' ZipCodeBuffer_init)
   \<and> \<not> isOpen (snd (open_file example_fs ''missing.csv'' ZipCodeBuffer_init))
   \<and> getFilename (snd (open_file example_fs ''missing.csv'' ZipCodeBuffer_init)) = ''missing.csv''"
  using open_file_missing [where fsys = example_fs and p = "''missing.csv''", OF example_fs_simps(5)]
  by (simp add: example_fs_simps isOpen_def getFilename_def)

text \<open>
  The other cases: after \<^verbatim>\<open>close\<close> and after \<^verbatim>\<open>open\<close> on an empty file (which calls
  \<^verbatim>\<open>close\<close>) the name is empty, and after a successful \<^verbatim>\<open>open\<close> it is the path.
\<close>

lemma getFilename_cases:
  "getFilename (close b) = []"
  "fsys p = Some [] \<Longrightarrow> getFilename (snd (open_file fsys p b)) = []"
  "fsys p = Some c \<Longrightarrow> c \<noteq> [] \<Longrightarrow> getFilename (snd (open_file fsys p b)) = p"
  "fsys p = None \<Longrightarrow> getFilename (snd (open_file fsys p b)) = p"
  using open_file_found(2) [of fsys p "[]" b] open_file_found(2) [of fsys p c b]
    open_file_missing(2) [of fsys p b]
  by (simp_all add: getFilename_def close_props)

subsection \<open>Exit codes\<close>

lemma open_file_iff: "fst (open_file fsys p b) \<longleftrightarrow> (\<exists>c. fsys p = Some c \<and> c \<noteq> [])"
proof (cases "fsys p")
  case None
  then show ?thesis using open_file_missing(1) [of fsys p b] by simp
next
  case (Some c)
  then show ?thesis using open_file_found(1) [of fsys p c b] by simp
qed

lemma main_unfold:
  "main fsys argv =
     (if length argv \<noteq> 2 then 1
      else if \<not> fst (open_file fsys (argv ! 1) ZipCodeBuffer_init) then 2
      else if fst (gatherAllRecords (snd (open_file fsys (argv ! 1) ZipCodeBuffer_init))) = [] then 3
      else 0)"
  by (simp add: main_def Let_def split: prod.splits)

lemma header_only_no_records:
  assumes "fsys p = Some c" "length (lines_of c) = 1"
  shows "fst (open_file fsys p b)"
    and "fst (gatherAllRecords (snd (open_file fsys p b))) = []"
proof -
  note f = open_file_found [of fsys p c b, OF assms(1)]
  have n: "c \<noteq> []"
    using assms(2) by auto
  show "fst (open_file fsys p b)"
    using f(1) n by simp
  have o: "is_open (fileStream (snd (open_file fsys p b)))"
    using f(3) n by simp
  have "tl (lines_of c) = []"
    using assms(2) by (cases "lines_of c") simp_all
  then show "fst (gatherAllRecords (snd (open_file fsys p b))) = []"
    using gatherAllRecords_lines(1) [OF o] f(4) [OF n] by simp
qed

text \<open>
  C8. The program exits with 1 when the argument vector does not hold exactly one path
  after the program name, with 2 when \<^verbatim>\<open>open\<close> fails (which is when the file is missing
  or empty), with 3 when the bulk read yields no record and with 0 otherwise; a file of
  a single line, the header, yields no record and the exit code 3.
\<close>

theorem main_exit_codes:
  "main fsys argv =
     (if length argv \<noteq> 2 then 1
      else if \<not> fst (open_file fsys (argv ! 1) ZipCodeBuffer_init) then 2
      else if fst (gatherAllRecords (snd (open_file fsys (argv ! 1) ZipCodeBuffer_init))) = [] then 3
      else 0)
   \<and> (fst (open_file fsys p ZipCodeBuffer_init) \<longleftrightarrow> (\<exists>c. fsys p = Some c \<and> c \<noteq> []))
   \<and> (fsys p = Some c \<and> length (lines_of c) = 1 \<longrightarrow>
        fst (gatherAllRecords (snd (open_file fsys p ZipCodeBuffer_init))) = []
        \<and> main fsys [prog, p] = 3)"
  using header_only_no_records [of fsys p c ZipCodeBuffer_init]
  by (auto simp add: main_unfold open_file_iff)

text \<open>The exit codes on the example files.\<close>

theorem main_exit_codes_witness:
  "example_fs ''header.csv'' = Some file_header_only
   \<and> length (lines_of file_header_only) = 1
   \<and> fst (gatherAllRecords (snd (open_file example_fs ''header.csv'' ZipCodeBuffer_init))) = []
   \<and> main example_fs [''zip_analysis'', ''header.csv''] = 3
   \<and> main example_fs [''zip_analysis''] = 1
   \<and> main example_fs [''zip_analysis'', ''zips.csv'', ''skip.csv''] = 1
   \<and> main example_fs [''zip_analysis'', ''missing.csv''] = 2
   \<and> main example_fs [''zip_analysis'', ''empty.csv''] = 2
   \<and> main example_fs [''zip_analysis'', ''zips.csv''] = 0"
proof -
  have g: "fst (gatherAllRecords (snd (open_file example_fs ''zips.csv'' ZipCodeBuffer_init)))
      = [record_valid]"
    by (simp add: gatherAllRecords_lines(1) [OF zips_buffer(1)] zips_buffer(2) lines_of_file_valid
        blank_examples parse_examples)
  have m: "\<not> fst (open_file example_fs ''missing.csv'' ZipCodeBuffer_init)"
    "\<not> fst (open_file example_fs ''empty.csv'' ZipCodeBuffer_init)"
    by (simp_all add: open_file_iff example_fs_simps)
  show ?thesis
    using main_exit_codes [of example_fs "[''zip_analysis'', ''header.csv'']" "''header.csv''"
        file_header_only "''zip_analysis''"]
      main_exit_codes [of example_fs "[''zip_analysis'']"]
      main_exit_codes [of example_fs "[''zip_analysis'', ''zips.csv'', ''skip.csv'']"]
      main_exit_codes [of example_fs "[''zip_analysis'', ''missing.csv'']"]
      main_exit_codes [of example_fs "[''zip_analysis'', ''empty.csv'']"]
      main_exit_codes [of example_fs "[''zip_analysis'', ''zips.csv'']"]
    by (simp add: example_fs_simps lines_of_file_header_only g m zips_buffer(5))
qed

subsection \<open>The aggregation\<close>

lemma double_eq_not_less: "double_eq x y \<Longrightarrow> \<not> double_less x y \<and> \<not> double_less y x"
  by (cases x; cases y) (simp_all add: double_eq_def)

lemma update_easternmost_other:
  "westernmost (update_easternmost r e) = westernmost e"
  "northernmost (update_easternmost r e) = northernmost e"
  "southernmost (update_easternmost r e) = southernmost e"
  "maxLongitude (update_easternmost r e) = maxLongitude e"
  "maxLatitude (update_easternmost r e) = maxLatitude e"
  "minLatitude (update_easternmost r e) = minLatitude e"
  by (simp_all add: update_easternmost_def)

lemma update_westernmost_other:
  "easternmost (update_westernmost r e) = easternmost e"
  "northernmost (update_westernmost r e) = northernmost e"
  "southernmost (update_westernmost r e) = southernmost e"
  "minLongitude (update_westernmost r e) = minLongitude e"
  "maxLatitude (update_westernmost r e) = maxLatitude e"
  "minLatitude (update_westernmost r e) = minLatitude e"
  by (simp_all add: update_westernmost_def)

lemma update_northernmost_other:
  "easternmost (update_northernmost r e) = easternmost e"
  "westernmost (update_northernmost r e) = westernmost e"
  "southernmost (update_northernmost r e) = southernmost e"
  "minLongitude (update_northernmost r e) = minLongitude e"
  "maxLongitude (update_northernmost r e) = maxLongitude e"
  "minLatitude (update_northernmost r e) = minLatitude e"
  by (simp_all add: update_northernmost_def)

lemma update_southernmost_other:
  "easternmost (update_southernmost r e) = easternmost e"
  "westernmost (update_southernmost r e) = westernmost e"
  "northernmost (update_southernmost r e) = northernmost e"
  "minLongitude (update_southernmost r e) = minLongitude e"
  "maxLongitude (update_southernmost r e) = maxLongitude e"
  "maxLatitude (update_southernmost r e) = maxLatitude e"
  by (simp_all add: update_southernmost_def)

lemmas update_other =
  update_easternmost_other update_westernmost_other update_northernmost_other
  update_southernmost_other

text \<open>
  Each of the four updates reads and writes its own two fields only, so a field of the
  whole update is the field of its own update on the entry as it was.
\<close>

lemma update_westernmost_eq:
  "westernmost (update_westernmost r (update_easternmost r e)) = westernmost (update_westernmost r e)"
  "maxLongitude (update_westernmost r (update_easternmost r e)) = maxLongitude (update_westernmost r e)"
  by (simp_all add: update_westernmost_def update_other)

lemma update_northernmost_eq:
  "northernmost (update_northernmost r (update_westernmost r (update_easternmost r e)))
     = northernmost (update_northernmost r e)"
  "maxLatitude (update_northernmost r (update_westernmost r (update_easternmost r e)))
     = maxLatitude (update_northernmost r e)"
  by (simp_all add: update_northernmost_def update_other)

lemma update_southernmost_eq:
  "southernmost (update_southernmost r (update_northernmost r (update_westernmost r (update_easternmost r e))))
     = southernmost (update_southernmost r e)"
  "minLatitude (update_southernmost r (update_northernmost r (update_westernmost r (update_easternmost r e))))
     = minLatitude (update_southernmost r e)"
  by (simp_all add: update_southernmost_def update_other)

lemma update_fields:
  "easternmost (update_extremes r e) = easternmost (update_easternmost r e)"
  "minLongitude (update_extremes r e) = minLongitude (update_easternmost r e)"
  "westernmost (update_extremes r e) = westernmost (update_westernmost r e)"
  "maxLongitude (update_extremes r e) = maxLongitude (update_westernmost r e)"
  "northernmost (update_extremes r e) = northernmost (update_northernmost r e)"
  "maxLatitude (update_extremes r e) = maxLatitude (update_northernmost r e)"
  "southernmost (update_extremes r e) = southernmost (update_southernmost r e)"
  "minLatitude (update_extremes r e) = minLatitude (update_southernmost r e)"
  by (simp_all add: update_extremes_def update_other update_westernmost_eq
      update_northernmost_eq update_southernmost_eq)

lemma update_easternmost_fields:
  "easternmost e = easternmost e' \<Longrightarrow> minLongitude e = minLongitude e' \<Longrightarrow>
   easternmost (update_easternmost r e) = easternmost (update_easternmost r e')
   \<and> minLongitude (update_easternmost r e) = minLongitude (update_easternmost r e')"
  by (simp add: update_easternmost_def)

lemma update_westernmost_fields:
  "westernmost e = westernmost e' \<Longrightarrow> maxLongitude e = maxLongitude e' \<Longrightarrow>
   westernmost (update_westernmost r e) = westernmost (update_westernmost r e')
   \<and> maxLongitude (update_westernmost r e) = maxLongitude (update_westernmost r e')"
  by (simp add: update_westernmost_def)

lemma update_northernmost_fields:
  "northernmost e = northernmost e' \<Longrightarrow> maxLatitude e = maxLatitude e' \<Longrightarrow>
   northernmost (update_northernmost r e) = northernmost (update_northernmost r e')
   \<and> maxLatitude (update_northernmost r e) = maxLatitude (update_northernmost r e')"
  by (simp add: update_northernmost_def)

lemma update_southernmost_fields:
  "southernmost e = southernmost e' \<Longrightarrow> minLatitude e = minLatitude e' \<Longrightarrow>
   southernmost (update_southernmost r e) = southernmost (update_southernmost r e')
   \<and> minLatitude (update_southernmost r e) = minLatitude (update_southernmost r e')"
  by (simp add: update_southernmost_def)

lemma update_extremes_twice:
  "easternmost (update_extremes r1 (update_extremes r2 e))
     = easternmost (update_easternmost r1 (update_easternmost r2 e))"
  "minLongitude (update_extremes r1 (update_extremes r2 e))
     = minLongitude (update_easternmost r1 (update_easternmost r2 e))"
  "westernmost (update_extremes r1 (update_extremes r2 e))
     = westernmost (update_westernmost r1 (update_westernmost r2 e))"
  "maxLongitude (update_extremes r1 (update_extremes r2 e))
     = maxLongitude (update_westernmost r1 (update_westernmost r2 e))"
  "northernmost (update_extremes r1 (update_extremes r2 e))
     = northernmost (update_northernmost r1 (update_northernmost r2 e))"
  "maxLatitude (update_extremes r1 (update_extremes r2 e))
     = maxLatitude (update_northernmost r1 (update_northernmost r2 e))"
  "southernmost (update_extremes r1 (update_extremes r2 e))
     = southernmost (update_southernmost r1 (update_southernmost r2 e))"
  "minLatitude (update_extremes r1 (update_extremes r2 e))
     = minLatitude (update_southernmost r1 (update_southernmost r2 e))"
  using update_easternmost_fields [of "update_extremes r2 e" "update_easternmost r2 e" r1]
    update_westernmost_fields [of "update_extremes r2 e" "update_westernmost r2 e" r1]
    update_northernmost_fields [of "update_extremes r2 e" "update_northernmost r2 e" r1]
    update_southernmost_fields [of "update_extremes r2 e" "update_southernmost r2 e" r1]
  by (simp_all add: update_fields)

lemma double_less_irrefl: "\<not> double_less x x"
  by (cases x) simp_all

lemma tie_rule:
  "double_eq (longitude r) (minLongitude e) \<Longrightarrow>
     easternmost (update_extremes r e)
       = (if easternmost e = 0 \<or> zipCode r < easternmost e then zipCode r else easternmost e)
     \<and> minLongitude (update_extremes r e) = minLongitude e"
  "double_eq (longitude r) (maxLongitude e) \<Longrightarrow>
     westernmost (update_extremes r e)
       = (if westernmost e = 0 \<or> zipCode r < westernmost e then zipCode r else westernmost e)
     \<and> maxLongitude (update_extremes r e) = maxLongitude e"
  "double_eq (latitude r) (maxLatitude e) \<Longrightarrow>
     northernmost (update_extremes r e)
       = (if northernmost e = 0 \<or> zipCode r < northernmost e then zipCode r else northernmost e)
     \<and> maxLatitude (update_extremes r e) = maxLatitude e"
  "double_eq (latitude r) (minLatitude e) \<Longrightarrow>
     southernmost (update_extremes r e)
       = (if southernmost e = 0 \<or> zipCode r < southernmost e then zipCode r else southernmost e)
     \<and> minLatitude (update_extremes r e) = minLatitude e"
proof -
  show "easternmost (update_extremes r e)
       = (if easternmost e = 0 \<or> zipCode r < easternmost e then zipCode r else easternmost e)
     \<and> minLongitude (update_extremes r e) = minLongitude e"
    if "double_eq (longitude r) (minLongitude e)"
    using that double_eq_not_less [OF that]
    by (simp add: update_fields update_easternmost_def smallerZipWins_def)
  show "westernmost (update_extremes r e)
       = (if westernmost e = 0 \<or> zipCode r < westernmost e then zipCode r else westernmost e)
     \<and> maxLongitude (update_extremes r e) = maxLongitude e"
    if "double_eq (longitude r) (maxLongitude e)"
    using that double_eq_not_less [OF that]
    by (simp add: update_fields update_westernmost_def smallerZipWins_def double_greater_def)
  show "northernmost (update_extremes r e)
       = (if northernmost e = 0 \<or> zipCode r < northernmost e then zipCode r else northernmost e)
     \<and> maxLatitude (update_extremes r e) = maxLatitude e"
    if "double_eq (latitude r) (maxLatitude e)"
    using that double_eq_not_less [OF that]
    by (simp add: update_fields update_northernmost_def smallerZipWins_def double_greater_def)
  show "southernmost (update_extremes r e)
       = (if southernmost e = 0 \<or> zipCode r < southernmost e then zipCode r else southernmost e)
     \<and> minLatitude (update_extremes r e) = minLatitude e"
    if "double_eq (latitude r) (minLatitude e)"
    using that double_eq_not_less [OF that]
    by (simp add: update_fields update_southernmost_def smallerZipWins_def)
qed

lemma calculateStateExtremes_two:
  "calculateStateExtremes [r1, r2] =
     process_record r2 (process_record r1 Map.empty)"
  by (simp add: calculateStateExtremes_def)

lemma first_record:
  assumes "longitude r = Finite x" "- DBL_MAX \<le> x" "x \<le> DBL_MAX"
  shows "easternmost (update_extremes r StateExtremes_init) = zipCode r"
    and "minLongitude (update_extremes r StateExtremes_init) = Finite x"
    and "westernmost (update_extremes r StateExtremes_init) = zipCode r"
    and "maxLongitude (update_extremes r StateExtremes_init) = Finite x"
  using assms
  by (auto simp add: update_fields update_easternmost_def update_westernmost_def
      StateExtremes_init_def numeric_limits_max_def numeric_limits_lowest_def
      smallerZipWins_def double_greater_def double_eq_def)

lemma two_records_same_longitude:
  assumes "state r1 = state r2" "longitude r1 = Finite x" "longitude r2 = Finite x"
    and "- DBL_MAX \<le> x" "x \<le> DBL_MAX"
  shows "map_option easternmost (calculateStateExtremes [r1, r2] (state r1))
      = Some (if zipCode r1 = 0 \<or> zipCode r2 < zipCode r1 then zipCode r2 else zipCode r1)"
    and "map_option westernmost (calculateStateExtremes [r1, r2] (state r1))
      = Some (if zipCode r1 = 0 \<or> zipCode r2 < zipCode r1 then zipCode r2 else zipCode r1)"
proof -
  let ?e = "update_extremes r1 StateExtremes_init"
  note f = first_record [OF assms(2,4,5)]
  have c: "calculateStateExtremes [r1, r2] (state r1) = Some (update_extremes r2 ?e)"
    using assms(1) by (simp add: calculateStateExtremes_two process_record_def)
  have "double_eq (longitude r2) (minLongitude ?e)" "double_eq (longitude r2) (maxLongitude ?e)"
    using assms(3) f by (simp_all add: double_eq_def)
  from tie_rule(1) [OF this(1)] tie_rule(2) [OF this(2)]
  show "map_option easternmost (calculateStateExtremes [r1, r2] (state r1))
      = Some (if zipCode r1 = 0 \<or> zipCode r2 < zipCode r1 then zipCode r2 else zipCode r1)"
    and "map_option westernmost (calculateStateExtremes [r1, r2] (state r1))
      = Some (if zipCode r1 = 0 \<or> zipCode r2 < zipCode r1 then zipCode r2 else zipCode r1)"
    unfolding c by (simp_all add: f)
qed

lemma two_records_slots:
  assumes "state r1 = state r2" "double_eq (longitude r1) (longitude r2)"
  shows "calculateStateExtremes [r1, r2] (state r1)
      = Some (update_extremes r2 (update_extremes r1 StateExtremes_init))"
    and "double_eq (minLongitude (update_extremes r2 (update_extremes r1 StateExtremes_init)))
        (longitude r1) \<Longrightarrow>
      easternmost (update_extremes r2 (update_extremes r1 StateExtremes_init))
        = (if zipCode r1 = 0 \<or> zipCode r2 < zipCode r1 then zipCode r2 else zipCode r1)"
    and "double_eq (maxLongitude (update_extremes r2 (update_extremes r1 StateExtremes_init)))
        (longitude r1) \<Longrightarrow>
      westernmost (update_extremes r2 (update_extremes r1 StateExtremes_init))
        = (if zipCode r1 = 0 \<or> zipCode r2 < zipCode r1 then zipCode r2 else zipCode r1)"
proof -
  show "calculateStateExtremes [r1, r2] (state r1)
      = Some (update_extremes r2 (update_extremes r1 StateExtremes_init))"
    using assms(1) by (simp add: calculateStateExtremes_two process_record_def)
  show "easternmost (update_extremes r2 (update_extremes r1 StateExtremes_init))
        = (if zipCode r1 = 0 \<or> zipCode r2 < zipCode r1 then zipCode r2 else zipCode r1)"
    if "double_eq (minLongitude (update_extremes r2 (update_extremes r1 StateExtremes_init)))
        (longitude r1)"
    using assms(2) that unfolding update_extremes_twice
    by (cases "longitude r1")
      (auto simp add: update_easternmost_def double_eq_def StateExtremes_init_def double_less_irrefl
        numeric_limits_max_def smallerZipWins_def split: if_splits)
  show "westernmost (update_extremes r2 (update_extremes r1 StateExtremes_init))
        = (if zipCode r1 = 0 \<or> zipCode r2 < zipCode r1 then zipCode r2 else zipCode r1)"
    if "double_eq (maxLongitude (update_extremes r2 (update_extremes r1 StateExtremes_init)))
        (longitude r1)"
    using assms(2) that unfolding update_extremes_twice
    by (cases "longitude r1")
      (auto simp add: update_westernmost_def double_eq_def StateExtremes_init_def double_less_irrefl
        numeric_limits_lowest_def smallerZipWins_def double_greater_def split: if_splits)
qed

text \<open>
  C3. The loop body updates the entry of the record's state with \<open>update_extremes\<close>,
  and for each of the four extremes, when the record's coordinate equals the stored
  one, the stored code becomes the record's code if the stored code is 0 or the record's
  code is smaller, and stays otherwise; the stored coordinate stays. Two records of one
  state with equal longitude and the codes 10023 and 10005, in either order, give 10005
  as the easternmost and as the westernmost code wherever the stored coordinate is that
  longitude, which it is in both places when the longitude is finite.
\<close>

theorem tie_break_smaller_code_wins:
  "(stateMap (state r) = Some e \<longrightarrow>
      process_record r stateMap (state r) = Some (update_extremes r e))
   \<and> (double_eq (longitude r) (minLongitude e) \<longrightarrow>
      easternmost (update_extremes r e)
        = (if easternmost e = 0 \<or> zipCode r < easternmost e then zipCode r else easternmost e)
      \<and> minLongitude (update_extremes r e) = minLongitude e)
   \<and> (double_eq (longitude r) (maxLongitude e) \<longrightarrow>
      westernmost (update_extremes r e)
        = (if westernmost e = 0 \<or> zipCode r < westernmost e then zipCode r else westernmost e)
      \<and> maxLongitude (update_extremes r e) = maxLongitude e)
   \<and> (double_eq (latitude r) (maxLatitude e) \<longrightarrow>
      northernmost (update_extremes r e)
        = (if northernmost e = 0 \<or> zipCode r < northernmost e then zipCode r else northernmost e)
      \<and> maxLatitude (update_extremes r e) = maxLatitude e)
   \<and> (double_eq (latitude r) (minLatitude e) \<longrightarrow>
      southernmost (update_extremes r e)
        = (if southernmost e = 0 \<or> zipCode r < southernmost e then zipCode r else southernmost e)
      \<and> minLatitude (update_extremes r e) = minLatitude e)
   \<and> (state r1 = state r2 \<and> double_eq (longitude r1) (longitude r2)
        \<and> {zipCode r1, zipCode r2} = {10023, 10005} \<longrightarrow>
      (\<exists>e'. calculateStateExtremes [r1, r2] (state r1) = Some e'
         \<and> (double_eq (minLongitude e') (longitude r1) \<longrightarrow> easternmost e' = 10005)
         \<and> (double_eq (maxLongitude e') (longitude r1) \<longrightarrow> westernmost e' = 10005)))
   \<and> (state r1 = state r2 \<and> longitude r1 = Finite x \<and> longitude r2 = Finite x
        \<and> - DBL_MAX \<le> x \<and> x \<le> DBL_MAX
        \<and> {zipCode r1, zipCode r2} = {10023, 10005} \<longrightarrow>
      map_option easternmost (calculateStateExtremes [r1, r2] (state r1)) = Some 10005
      \<and> map_option westernmost (calculateStateExtremes [r1, r2] (state r1)) = Some 10005)"
proof (intro conjI impI)
  assume "stateMap (state r) = Some e"
  then show "process_record r stateMap (state r) = Some (update_extremes r e)"
    by (simp add: process_record_def)
next
  assume a: "state r1 = state r2 \<and> longitude r1 = Finite x \<and> longitude r2 = Finite x
      \<and> - DBL_MAX \<le> x \<and> x \<le> DBL_MAX \<and> {zipCode r1, zipCode r2} = {10023, 10005}"
  then have z: "zipCode r1 = 10023 \<and> zipCode r2 = 10005 \<or> zipCode r1 = 10005 \<and> zipCode r2 = 10023"
    by (auto simp add: doubleton_eq_iff)
  from a have b: "state r1 = state r2" "longitude r1 = Finite x" "longitude r2 = Finite x"
    "- DBL_MAX \<le> x" "x \<le> DBL_MAX"
    by simp_all
  show "map_option easternmost (calculateStateExtremes [r1, r2] (state r1)) = Some 10005"
    unfolding two_records_same_longitude(1) [OF b] using z by auto
  show "map_option westernmost (calculateStateExtremes [r1, r2] (state r1)) = Some 10005"
    unfolding two_records_same_longitude(2) [OF b] using z by auto
next
  assume a: "state r1 = state r2 \<and> double_eq (longitude r1) (longitude r2)
      \<and> {zipCode r1, zipCode r2} = {10023, 10005}"
  then have z: "zipCode r1 = 10023 \<and> zipCode r2 = 10005 \<or> zipCode r1 = 10005 \<and> zipCode r2 = 10023"
    by (auto simp add: doubleton_eq_iff)
  from a have b: "state r1 = state r2" "double_eq (longitude r1) (longitude r2)"
    by simp_all
  let ?e = "update_extremes r2 (update_extremes r1 StateExtremes_init)"
  have "double_eq (minLongitude ?e) (longitude r1) \<longrightarrow> easternmost ?e = 10005"
    using two_records_slots(2) [OF b] z by auto
  moreover have "double_eq (maxLongitude ?e) (longitude r1) \<longrightarrow> westernmost ?e = 10005"
    using two_records_slots(3) [OF b] z by auto
  ultimately show "\<exists>e'. calculateStateExtremes [r1, r2] (state r1) = Some e'
      \<and> (double_eq (minLongitude e') (longitude r1) \<longrightarrow> easternmost e' = 10005)
      \<and> (double_eq (maxLongitude e') (longitude r1) \<longrightarrow> westernmost e' = 10005)"
    using two_records_slots(1) [OF b] by blast
qed (simp_all add: tie_rule)

lemma in_range_74: "- DBL_MAX \<le> - 74" "- 74 \<le> DBL_MAX"
  by (simp_all add: DBL_MAX_def)

text \<open>
  The tie-break on the example records: 10005 replaces 10023 in all four places, and
  both orders of the two records give 10005.
\<close>

theorem tie_break_smaller_code_wins_witness:
  "[''NY'' \<mapsto> extremes_10023] (state record_10005) = Some extremes_10023
   \<and> process_record record_10005 [''NY'' \<mapsto> extremes_10023] (state record_10005)
       = Some (update_extremes record_10005 extremes_10023)
   \<and> double_eq (longitude record_10005) (minLongitude extremes_10023)
   \<and> double_eq (longitude record_10005) (maxLongitude extremes_10023)
   \<and> double_eq (latitude record_10005) (maxLatitude extremes_10023)
   \<and> double_eq (latitude record_10005) (minLatitude extremes_10023)
   \<and> easternmost (update_extremes record_10005 extremes_10023) = 10005
   \<and> westernmost (update_extremes record_10005 extremes_10023) = 10005
   \<and> northernmost (update_extremes record_10005 extremes_10023) = 10005
   \<and> southernmost (update_extremes record_10005 extremes_10023) = 10005
   \<and> state record_10023 = state record_10005
   \<and> double_eq (longitude record_10023) (longitude record_10005)
   \<and> longitude record_10023 = Finite (- 74) \<and> longitude record_10005 = Finite (- 74)
   \<and> map_option easternmost (calculateStateExtremes [record_10023, record_10005] ''NY'') = Some 10005
   \<and> map_option westernmost (calculateStateExtremes [record_10023, record_10005] ''NY'') = Some 10005
   \<and> map_option easternmost (calculateStateExtremes [record_10005, record_10023] ''NY'') = Some 10005
   \<and> map_option westernmost (calculateStateExtremes [record_10005, record_10023] ''NY'') = Some 10005"
proof -
  have s: "state record_10005 = ''NY''" "state record_10023 = ''NY''"
    "longitude record_10023 = Finite (- 74)" "longitude record_10005 = Finite (- 74)"
    "zipCode record_10023 = 10023" "zipCode record_10005 = 10005"
    by (simp_all add: record_10005_def record_10023_def)
  have d: "double_eq (longitude record_10005) (minLongitude extremes_10023)"
    "double_eq (longitude record_10005) (maxLongitude extremes_10023)"
    "double_eq (latitude record_10005) (maxLatitude extremes_10023)"
    "double_eq (latitude record_10005) (minLatitude extremes_10023)"
    by (simp_all add: record_10005_def extremes_10023_def double_eq_def)
  have d': "double_eq (Finite (- 74)) (minLongitude extremes_10023)"
    "double_eq (Finite (- 74)) (maxLongitude extremes_10023)"
    using d by (simp_all add: s)
  have q: "double_eq (Finite (- 74)) (Finite (- 74))"
    by (simp add: double_eq_def)
  have m: "74 \<le> DBL_MAX"
    by (simp add: DBL_MAX_def)
  have e: "easternmost extremes_10023 = 10023" "westernmost extremes_10023 = 10023"
    "northernmost extremes_10023 = 10023" "southernmost extremes_10023 = 10023"
    by (simp_all add: extremes_10023_def)
  show ?thesis
    using tie_break_smaller_code_wins [of "[''NY'' \<mapsto> extremes_10023]" record_10005 extremes_10023
        record_10023 record_10005 "- 74"]
      tie_break_smaller_code_wins [of "[''NY'' \<mapsto> extremes_10023]" record_10005 extremes_10023
        record_10005 record_10023 "- 74"]
    by (simp add: s d d' q e m in_range_74 insert_commute)
qed

text \<open>
  Order-independence where no record has the code 0: the updates of two such records
  commute, on every entry.
\<close>

lemma update_easternmost_commute:
  assumes "zipCode r1 \<noteq> 0" "zipCode r2 \<noteq> 0"
  shows "update_easternmost r1 (update_easternmost r2 e) = update_easternmost r2 (update_easternmost r1 e)"
  using assms
  by (cases "longitude r1"; cases "longitude r2"; cases "minLongitude e")
    (auto simp add: update_easternmost_def smallerZipWins_def double_eq_def)

lemma update_southernmost_commute:
  assumes "zipCode r1 \<noteq> 0" "zipCode r2 \<noteq> 0"
  shows "update_southernmost r1 (update_southernmost r2 e) = update_southernmost r2 (update_southernmost r1 e)"
  using assms
  by (cases "latitude r1"; cases "latitude r2"; cases "minLatitude e")
    (auto simp add: update_southernmost_def smallerZipWins_def double_eq_def)

lemma update_westernmost_commute:
  assumes "zipCode r1 \<noteq> 0" "zipCode r2 \<noteq> 0"
  shows "update_westernmost r1 (update_westernmost r2 e) = update_westernmost r2 (update_westernmost r1 e)"
  using assms
  by (cases "longitude r1"; cases "longitude r2"; cases "maxLongitude e")
    (auto simp add: update_westernmost_def smallerZipWins_def double_eq_def double_greater_def)

lemma update_northernmost_commute:
  assumes "zipCode r1 \<noteq> 0" "zipCode r2 \<noteq> 0"
  shows "update_northernmost r1 (update_northernmost r2 e) = update_northernmost r2 (update_northernmost r1 e)"
  using assms
  by (cases "latitude r1"; cases "latitude r2"; cases "maxLatitude e")
    (auto simp add: update_northernmost_def smallerZipWins_def double_eq_def double_greater_def)


lemma update_extremes_commute:
  assumes "zipCode r1 \<noteq> 0" "zipCode r2 \<noteq> 0"
  shows "update_extremes r1 (update_extremes r2 e) = update_extremes r2 (update_extremes r1 e)"
  by (rule StateExtremes.equality)
    (simp_all add: update_extremes_twice update_easternmost_commute [OF assms]
      update_westernmost_commute [OF assms] update_northernmost_commute [OF assms]
      update_southernmost_commute [OF assms])

lemma process_record_commute:
  assumes "zipCode r1 \<noteq> 0" "zipCode r2 \<noteq> 0"
  shows "process_record r1 (process_record r2 m) = process_record r2 (process_record r1 m)"
proof (cases "state r1 = state r2")
  case True
  then show ?thesis
    by (simp add: process_record_def update_extremes_commute [OF assms])
next
  case False
  then show ?thesis
    by (auto simp add: process_record_def fun_upd_twist)
qed

lemma calculateStateExtremes_loop_fold:
  "calculateStateExtremes_loop records m = fold process_record records m"
  by (induction records arbitrary: m) simp_all

lemma calculateStateExtremes_permutation:
  assumes "\<forall>r\<in>set xs. zipCode r \<noteq> 0" "mset xs = mset ys"
  shows "calculateStateExtremes xs = calculateStateExtremes ys"
proof -
  have "fold process_record xs = fold process_record ys"
  proof (rule fold_multiset_equiv)
    fix x y
    assume "x \<in> set xs" "y \<in> set xs"
    then have "zipCode x \<noteq> 0" "zipCode y \<noteq> 0"
      using assms(1) by simp_all
    then have "process_record x (process_record y m) = process_record y (process_record x m)" for m
      by (rule process_record_commute)
    then show "process_record x \<circ> process_record y = process_record y \<circ> process_record x"
      by (simp add: comp_def)
  qed (rule assms(2))
  then show ?thesis
    by (simp add: calculateStateExtremes_def calculateStateExtremes_loop_fold)
qed

text \<open>
  C2. The aggregation depends on the order of the records when a record has the code 0:
  the line \<^verbatim>\<open>00000,New York,NY,New York,40.5,-74\<close> parses to a record with code 0, and
  with a record of code 10005 at the same place the easternmost code is 10005 when the
  record with code 0 comes first and 0 when it comes second. The stored code 0 is read
  as "unset" by \<^verbatim>\<open>smallerZipWins\<close>, so a stored real code 0 loses a tie it should win.
\<close>

theorem calculateStateExtremes_order_dependent_at_code_0:
  "parse line_0 = Some record_0
   \<and> mset [record_0, record_10005] = mset [record_10005, record_0]
   \<and> map_option easternmost (calculateStateExtremes [record_0, record_10005] ''NY'') = Some 10005
   \<and> map_option easternmost (calculateStateExtremes [record_10005, record_0] ''NY'') = Some 0
   \<and> calculateStateExtremes [record_0, record_10005] \<noteq> calculateStateExtremes [record_10005, record_0]"
proof -
  have p: "parse line_0 = Some record_0"
    by (simp add: parse_def parseLine_def line_0_def record_0_def splitCSV_def trim_defs
        conversion_defs round_to_double_values ZipCodeRecord_default_def)
  have s: "state record_0 = state record_10005" "state record_10005 = state record_0"
    "longitude record_0 = Finite (- 74)" "longitude record_10005 = Finite (- 74)"
    "state record_0 = ''NY''" "state record_10005 = ''NY''"
    by (simp_all add: record_0_def record_10005_def)
  have a: "map_option easternmost (calculateStateExtremes [record_0, record_10005] ''NY'') = Some 10005"
    using two_records_same_longitude(1) [OF s(1) s(3) s(4) in_range_74]
    by (simp add: s(5)) (simp add: record_0_def record_10005_def)
  have b: "map_option easternmost (calculateStateExtremes [record_10005, record_0] ''NY'') = Some 0"
    using two_records_same_longitude(1) [OF s(2) s(4) s(3) in_range_74]
    by (simp add: s(6)) (simp add: record_0_def record_10005_def)
  have "calculateStateExtremes [record_0, record_10005] \<noteq> calculateStateExtremes [record_10005, record_0]"
  proof
    assume "calculateStateExtremes [record_0, record_10005] = calculateStateExtremes [record_10005, record_0]"
    then have "map_option easternmost (calculateStateExtremes [record_0, record_10005] ''NY'')
        = map_option easternmost (calculateStateExtremes [record_10005, record_0] ''NY'')"
      by simp
    then show False
      unfolding a b by simp
  qed
  with p a b show ?thesis
    by simp
qed

end
